theory Spec2Isabelle
  imports Main "HOL-Library.Word"
begin

section \<open>EncryptedStaking: a shallow embedding of the stake ledger\<close>

text \<open>
  The development embeds the contract \<open>EncryptedStaking\<close> (the stake ledger) and the
  reward token \<open>MockUSDT\<close>. Solidity storage becomes one record, the \<open>world\<close>,
  that every external function takes and returns; a \<^verbatim>\<open>revert\<close> is the left summand
  of \<open>error + world\<close>. Events are not state and are left out.

  The ciphertext library and the coprocessor are not part of the repository. A ciphertext
  handle (\<^verbatim>\<open>euint64\<close>, \<^verbatim>\<open>euint128\<close>, a \<^verbatim>\<open>bytes32\<close> underneath) is a number, \<open>0\<close>
  being the uninitialized handle; the coprocessor's table \<open>plain\<close> gives the plaintext
  behind each handle, and every homomorphic operation allocates the next unused handle.
\<close>

subsection \<open>Types\<close>

type_synonym address = "160 word"
type_synonym bytes = "8 word list"
type_synonym handle = nat
type_synonym euint64 = handle
type_synonym euint128 = handle
type_synonym externalEuint64 = "256 word"

datatype error =
    InvalidAmount
  | NoRewardsAvailable
  | TransferFailed
  | Unauthorized
  | InvalidController
  | ArithmeticPanic
  | InvalidKMSSignatures
  | InvalidInputProof
  | AbiDecodeFailed
  | TokenReverted

record StakeInfo =
  ethStake :: euint128
  musdtStake :: euint128
  pendingRewards :: euint128
  lastUpdated :: "64 word"

text \<open>
  The token's own storage, and of the inherited \<^verbatim>\<open>ERC7984\<close> storage what the examples need:
  the encrypted total supply and balances as their 64-bit plaintexts (\<open>None\<close> for a
  balance whose handle is uninitialized) and the operator approvals in force, as pairs of
  holder and spender.
\<close>

record MockUSDT =
  controller :: address
  stakingContract :: address
  totalSupply :: "64 word"
  balances :: "address \<Rightarrow> 64 word option"
  operators :: "(address \<times> address) set"

text \<open>
  \<open>self\<close> is \<^verbatim>\<open>address(this)\<close> of the ledger, \<open>musdt\<close> its immutable token address,
  \<open>blockTime\<close> the \<^verbatim>\<open>block.timestamp\<close> of the transaction being executed (a 64-bit
  field of the block header, so that the casts \<^verbatim>\<open>uint64(block.timestamp)\<close> of the
  source are the identity).
\<close>

record world =
  stakes :: "address \<Rightarrow> StakeInfo"
  plain :: "handle \<Rightarrow> 128 word"
  handleCount :: nat
  acl :: "(handle \<times> address) set"
  publicHandles :: "handle set"
  token :: MockUSDT
  self :: address
  musdt :: address
  blockTime :: "64 word"

text \<open>
  What a call receives from outside the two contracts: the KMS signature check behind
  \<^verbatim>\<open>FHE.checkSignatures\<close>, the input verifier behind \<^verbatim>\<open>FHE.fromExternal\<close> (the
  validated plaintext, or \<open>None\<close> when the proof is rejected), the token's inherited
  \<^verbatim>\<open>confidentialTransferFrom\<close> (token state, spender, from, to, amount; it returns the
  amount it really moved) and the outcome of the native value transfer.
\<close>

record env =
  checkSignatures :: "handle list \<Rightarrow> bytes \<Rightarrow> bytes \<Rightarrow> bool"
  fromExternal :: "externalEuint64 \<Rightarrow> bytes \<Rightarrow> 64 word option"
  confidentialTransferFrom ::
    "MockUSDT \<Rightarrow> address \<Rightarrow> address \<Rightarrow> address \<Rightarrow> 64 word \<Rightarrow> error + (MockUSDT \<times> 64 word)"
  sendValue :: "address \<Rightarrow> 128 word \<Rightarrow> bool"

subsection \<open>The ciphertext library\<close>

text \<open>
  The operations of the external library \<^verbatim>\<open>@fhevm/solidity/lib/FHE.sol\<close> that the two
  contracts call. The library replaces an uninitialized operand by an encryption of zero,
  computes in the operand's width with wrap-around, and returns a new initialized handle;
  \<open>val\<close> is the plaintext an operation reads from a handle. The grants made with
  \<^verbatim>\<open>FHE.allow\<close> are kept in \<open>acl\<close>, the public flag in \<open>publicHandles\<close>. The
  coprocessor accepts every operand the ledger presents, and a call made by the recipient
  of a value transfer back into the ledger is not modelled.
\<close>

definition isInitialized :: "handle \<Rightarrow> bool" where
  "isInitialized h = (h \<noteq> 0)"

definition val :: "world \<Rightarrow> handle \<Rightarrow> 128 word" where
  "val w h = (if isInitialized h then plain w h else 0)"

definition fresh :: "world \<Rightarrow> 128 word \<Rightarrow> world \<times> handle" where
  "fresh w v =
     (let h = Suc (handleCount w)
      in (w\<lparr>plain := (plain w)(h := v), handleCount := h\<rparr>, h))"

definition asEuint128 :: "world \<Rightarrow> 128 word \<Rightarrow> world \<times> euint128" where
  "asEuint128 w v = fresh w v"

definition euint64_to_euint128 :: "world \<Rightarrow> euint64 \<Rightarrow> world \<times> euint128" where
  "euint64_to_euint128 w h = fresh w (val w h)"

definition asEuint64 :: "world \<Rightarrow> euint128 \<Rightarrow> world \<times> euint64" where
  "asEuint64 w h = fresh w (ucast (ucast (val w h) :: 64 word))"

definition FHE_add :: "world \<Rightarrow> euint128 \<Rightarrow> euint128 \<Rightarrow> world \<times> euint128" where
  "FHE_add w a b = fresh w (val w a + val w b)"

definition FHE_sub :: "world \<Rightarrow> euint128 \<Rightarrow> euint128 \<Rightarrow> world \<times> euint128" where
  "FHE_sub w a b = fresh w (val w a - val w b)"

definition FHE_mul :: "world \<Rightarrow> euint128 \<Rightarrow> 128 word \<Rightarrow> world \<times> euint128" where
  "FHE_mul w a b = fresh w (val w a * b)"

definition FHE_div :: "world \<Rightarrow> euint128 \<Rightarrow> 128 word \<Rightarrow> world \<times> euint128" where
  "FHE_div w a b = fresh w (val w a div b)"

definition FHE_allow :: "world \<Rightarrow> handle \<Rightarrow> address \<Rightarrow> world" where
  "FHE_allow w h a = w\<lparr>acl := insert (h, a) (acl w)\<rparr>"

definition FHE_allowThis :: "world \<Rightarrow> handle \<Rightarrow> world" where
  "FHE_allowThis w h = FHE_allow w h (self w)"

definition FHE_makePubliclyDecryptable :: "world \<Rightarrow> handle \<Rightarrow> world" where
  "FHE_makePubliclyDecryptable w h = w\<lparr>publicHandles := insert h (publicHandles w)\<rparr>"

text \<open>\<^verbatim>\<open>abi.decode(data, (uint256))\<close>: the first 32 bytes, big-endian; shorter data reverts.\<close>

definition abi_decode_uint256 :: "bytes \<Rightarrow> 256 word option" where
  "abi_decode_uint256 bs =
     (if length bs < 32 then None
      else Some (foldl (\<lambda>acc b. acc * 256 + ucast b) 0 (take 32 bs)))"

subsection \<open>MockUSDT\<close>

definition balance_of :: "MockUSDT \<Rightarrow> address \<Rightarrow> 64 word" where
  "balance_of tk a = (case balances tk a of None \<Rightarrow> 0 | Some b \<Rightarrow> b)"

text \<open>
  Modelled from the spec: the inherited \<^verbatim>\<open>ERC7984._mint\<close>, absent from the sources, of
  which the specification says that it "mints that exact encrypted amount into the
  recipient's confidential balance". The balance and the total supply are Confidential
  Values of 64 bits: the amount is added to both when the total supply stays within 64
  bits, and nothing is added when it would not; the function returns what it added. The
  receiver is the caller of the ledger and never the zero address.
\<close>

definition mint_internal :: "MockUSDT \<Rightarrow> address \<Rightarrow> 64 word \<Rightarrow> MockUSDT \<times> 64 word" where
  "mint_internal tk to amount =
     (let success = (totalSupply tk \<le> totalSupply tk + amount);
          minted = (if success then amount else 0)
      in (tk\<lparr>totalSupply := totalSupply tk + minted,
             balances := (balances tk)(to := Some (balance_of tk to + minted))\<rparr>, minted))"

definition onlyController :: "MockUSDT \<Rightarrow> address \<Rightarrow> bool" where
  "onlyController tk sender = (sender = controller tk)"

definition onlyMinter :: "MockUSDT \<Rightarrow> address \<Rightarrow> bool" where
  "onlyMinter tk sender = (\<not> (sender \<noteq> controller tk \<and> sender \<noteq> stakingContract tk))"

definition setController :: "address \<Rightarrow> address \<Rightarrow> MockUSDT \<Rightarrow> error + MockUSDT" where
  "setController sender newController tk =
     (if \<not> onlyController tk sender then Inl Unauthorized
      else if newController = 0 then Inl InvalidController
      else Inr (tk\<lparr>controller := newController\<rparr>))"

definition setStakingContract :: "address \<Rightarrow> address \<Rightarrow> MockUSDT \<Rightarrow> error + MockUSDT" where
  "setStakingContract sender newStakingContract tk =
     (if \<not> onlyController tk sender then Inl Unauthorized
      else Inr (tk\<lparr>stakingContract := newStakingContract\<rparr>))"

definition mint :: "address \<Rightarrow> address \<Rightarrow> 64 word \<Rightarrow> MockUSDT \<Rightarrow> error + (MockUSDT \<times> 64 word)" where
  "mint sender to amount tk =
     (if \<not> onlyController tk sender then Inl Unauthorized
      else Inr (mint_internal tk to amount))"

definition mintEncrypted ::
  "address \<Rightarrow> address \<Rightarrow> 64 word \<Rightarrow> MockUSDT \<Rightarrow> error + (MockUSDT \<times> 64 word)" where
  "mintEncrypted sender to encryptedAmount tk =
     (if \<not> onlyMinter tk sender then Inl Unauthorized
      else Inr (mint_internal tk to encryptedAmount))"

subsection \<open>EncryptedStaking\<close>

definition SECONDS_PER_DAY :: "64 word" where
  "SECONDS_PER_DAY = 86400"

definition PERCENT_DENOMINATOR :: "64 word" where
  "PERCENT_DENOMINATOR = 100"

definition update_info :: "world \<Rightarrow> address \<Rightarrow> (StakeInfo \<Rightarrow> StakeInfo) \<Rightarrow> world" where
  "update_info w user f = w\<lparr>stakes := (stakes w)(user := f (stakes w user))\<rparr>"

definition shareValue :: "world \<Rightarrow> euint128 \<Rightarrow> address \<Rightarrow> bool \<Rightarrow> world" where
  "shareValue w v user makePublic =
     (if \<not> isInitialized v then w
      else let w1 = FHE_allowThis w v;
               w2 = FHE_allow w1 v user
           in if makePublic then FHE_makePubliclyDecryptable w2 v else w2)"

text \<open>
  \<^verbatim>\<open>block.timestamp - info.lastUpdated\<close> is a checked subtraction: it panics when the
  stored checkpoint lies after the block's time.
\<close>

definition accrue :: "address \<Rightarrow> world \<Rightarrow> error + world" where
  "accrue user w =
     (let info = stakes w user in
      if lastUpdated info = 0 then
        Inr (update_info w user (\<lambda>i. i\<lparr>lastUpdated := blockTime w\<rparr>))
      else if blockTime w < lastUpdated info then Inl ArithmeticPanic
      else
        let elapsed = blockTime w - lastUpdated info in
        if elapsed = 0 then Inr w
        else
          let elapsed = elapsed - 1 in
          if elapsed = 0 then Inr w
          else
            let (w1, ethAccrued) = FHE_mul w (ethStake info) (ucast elapsed);
                (w2, ethAccrued) = FHE_div w1 ethAccrued (ucast SECONDS_PER_DAY);
                (w3, ethAccrued) = FHE_div w2 ethAccrued 1000000000000;
                (w4, musdtProduct) = FHE_mul w3 (musdtStake info) (ucast elapsed);
                (w5, musdtInterest) =
                   FHE_div w4 musdtProduct (ucast (SECONDS_PER_DAY * PERCENT_DENOMINATOR));
                (w6, totalInterest) = FHE_add w5 ethAccrued musdtInterest
            in
            if \<not> isInitialized totalInterest then
              Inr (update_info w6 user (\<lambda>i. i\<lparr>lastUpdated := blockTime w6\<rparr>))
            else
              let (w7, newPending) =
                     (if isInitialized (pendingRewards info)
                      then FHE_add w6 (pendingRewards info) totalInterest
                      else (w6, totalInterest));
                  w8 = update_info w7 user (\<lambda>i. i\<lparr>pendingRewards := newPending\<rparr>);
                  w9 = shareValue w8 (pendingRewards (stakes w8 user)) user True
              in Inr (update_info w9 user (\<lambda>i. i\<lparr>lastUpdated := blockTime w9\<rparr>)))"

definition stakeEth :: "address \<Rightarrow> 256 word \<Rightarrow> world \<Rightarrow> error + world" where
  "stakeEth sender msg_value w =
     (if msg_value = 0 \<or> msg_value > 2 ^ 128 - 1 then Inl InvalidAmount
      else case accrue sender w of
        Inl e \<Rightarrow> Inl e
      | Inr w1 \<Rightarrow>
          let info = stakes w1 sender;
              (w2, addition) = asEuint128 w1 (ucast msg_value);
              (w3, newStake) =
                 (if isInitialized (ethStake info) then FHE_add w2 (ethStake info) addition
                  else (w2, addition));
              w4 = update_info w3 sender (\<lambda>i. i\<lparr>ethStake := newStake\<rparr>);
              w5 = shareValue w4 (ethStake (stakes w4 sender)) sender True
          in Inr (update_info w5 sender (\<lambda>i. i\<lparr>lastUpdated := blockTime w5\<rparr>)))"

definition stakeMusdt ::
  "env \<Rightarrow> address \<Rightarrow> externalEuint64 \<Rightarrow> bytes \<Rightarrow> world \<Rightarrow> error + world" where
  "stakeMusdt ev sender encryptedAmount inputProof w =
     (case accrue sender w of
        Inl e \<Rightarrow> Inl e
      | Inr w1 \<Rightarrow>
         (case fromExternal ev encryptedAmount inputProof of
            None \<Rightarrow> Inl InvalidInputProof
          | Some amount \<Rightarrow>
              let (w2, validatedAmount) = fresh w1 (ucast amount);
                  w3 = FHE_allow w2 validatedAmount (self w2);
                  w4 = FHE_allow w3 validatedAmount (musdt w3)
              in (case confidentialTransferFrom ev (token w4) (self w4) sender (self w4) amount of
                    Inl e \<Rightarrow> Inl e
                  | Inr (tk, moved) \<Rightarrow>
                      let (w5, transferred) = fresh (w4\<lparr>token := tk\<rparr>) (ucast moved);
                          info = stakes w5 sender;
                          (w6, stakeIncrement) = euint64_to_euint128 w5 transferred;
                          (w7, newStake) =
                             (if isInitialized (musdtStake info)
                              then FHE_add w6 (musdtStake info) stakeIncrement
                              else (w6, stakeIncrement));
                          w8 = update_info w7 sender (\<lambda>i. i\<lparr>musdtStake := newStake\<rparr>);
                          w9 = shareValue w8 (musdtStake (stakes w8 sender)) sender True
                      in Inr (update_info w9 sender (\<lambda>i. i\<lparr>lastUpdated := blockTime w9\<rparr>)))))"

definition withdrawEth ::
  "env \<Rightarrow> address \<Rightarrow> 128 word \<Rightarrow> bytes \<Rightarrow> bytes \<Rightarrow> world \<Rightarrow> error + world" where
  "withdrawEth ev sender amount abiEncodedClearValue decryptionProof w =
     (if amount = 0 then Inl InvalidAmount
      else case accrue sender w of
        Inl e \<Rightarrow> Inl e
      | Inr w1 \<Rightarrow>
          let info = stakes w1 sender in
          if \<not> isInitialized (ethStake info) then Inl InvalidAmount
          else
            let handles = [ethStake info] in
            if \<not> checkSignatures ev handles abiEncodedClearValue decryptionProof
            then Inl InvalidKMSSignatures
            else
              (case abi_decode_uint256 abiEncodedClearValue of
                 None \<Rightarrow> Inl AbiDecodeFailed
               | Some decryptedStake \<Rightarrow>
                   if ucast amount > decryptedStake \<or> (ucast amount :: 256 word) > 2 ^ 128 - 1
                   then Inl InvalidAmount
                   else
                     let (w2, amountEncrypted) = asEuint128 w1 amount;
                         (w3, remaining) = FHE_sub w2 (ethStake info) amountEncrypted;
                         w4 = update_info w3 sender (\<lambda>i. i\<lparr>ethStake := remaining\<rparr>);
                         w5 = shareValue w4 (ethStake (stakes w4 sender)) sender True;
                         w6 = update_info w5 sender (\<lambda>i. i\<lparr>lastUpdated := blockTime w5\<rparr>)
                     in if \<not> sendValue ev sender amount then Inl TransferFailed else Inr w6))"

definition claimRewards :: "address \<Rightarrow> world \<Rightarrow> error + world" where
  "claimRewards sender w =
     (case accrue sender w of
        Inl e \<Rightarrow> Inl e
      | Inr w1 \<Rightarrow>
          let info = stakes w1 sender in
          if \<not> isInitialized (pendingRewards info) then Inl NoRewardsAvailable
          else
            let (w2, rewards) = asEuint64 w1 (pendingRewards info);
                w3 = FHE_allowThis w2 rewards;
                w4 = FHE_allow w3 rewards sender;
                w5 = FHE_allow w4 rewards (musdt w4);
                (w6, zero) = asEuint128 w5 0;
                w7 = update_info w6 sender (\<lambda>i. i\<lparr>pendingRewards := zero\<rparr>);
                w8 = shareValue w7 (pendingRewards (stakes w7 sender)) sender True;
                w9 = update_info w8 sender (\<lambda>i. i\<lparr>lastUpdated := blockTime w8\<rparr>)
            in (case mintEncrypted (self w9) sender (ucast (val w9 rewards)) (token w9) of
                  Inl e \<Rightarrow> Inl e
                | Inr (tk, minted) \<Rightarrow> Inr (w9\<lparr>token := tk\<rparr>)))"

definition syncRewards :: "address \<Rightarrow> world \<Rightarrow> error + (world \<times> euint128)" where
  "syncRewards sender w =
     (case accrue sender w of
        Inl e \<Rightarrow> Inl e
      | Inr w1 \<Rightarrow> Inr (w1, pendingRewards (stakes w1 sender)))"

definition getPosition :: "world \<Rightarrow> address \<Rightarrow> euint128 \<times> euint128 \<times> euint128 \<times> 64 word" where
  "getPosition w user =
     (let info = stakes w user
      in (ethStake info, musdtStake info, pendingRewards info, lastUpdated info))"

definition getRewardToken :: "world \<Rightarrow> address" where
  "getRewardToken w = musdt w"

subsection \<open>Transactions and reachable states\<close>

datatype call =
    StakeEth "256 word"
  | StakeMusdt externalEuint64 bytes
  | WithdrawEth "128 word" bytes bytes
  | ClaimRewards
  | SyncRewards

fun exec :: "env \<Rightarrow> address \<Rightarrow> call \<Rightarrow> world \<Rightarrow> error + world" where
  "exec ev sender (StakeEth msg_value) w = stakeEth sender msg_value w"
| "exec ev sender (StakeMusdt encryptedAmount inputProof) w =
     stakeMusdt ev sender encryptedAmount inputProof w"
| "exec ev sender (WithdrawEth amount clear pf) w = withdrawEth ev sender amount clear pf w"
| "exec ev sender ClaimRewards w = claimRewards sender w"
| "exec ev sender SyncRewards w =
     (case syncRewards sender w of Inl e \<Rightarrow> Inl e | Inr (w1, p) \<Rightarrow> Inr w1)"

text \<open>
  A transaction: when the call reverts, every write it made to the ledger, the token and
  the permission table is discarded and the error is reported.
\<close>

definition transact :: "(world \<Rightarrow> error + world) \<Rightarrow> world \<Rightarrow> world \<times> error option" where
  "transact f w = (case f w of Inl e \<Rightarrow> (w, Some e) | Inr w1 \<Rightarrow> (w1, None))"

text \<open>
  The view function \<^verbatim>\<open>getPosition\<close> as a call: the state it leaves and what it returns.
\<close>

definition call_getPosition ::
  "address \<Rightarrow> world \<Rightarrow> world \<times> (euint128 \<times> euint128 \<times> euint128 \<times> 64 word)" where
  "call_getPosition user w = (w, getPosition w user)"

definition emptyStake :: StakeInfo where
  "emptyStake = \<lparr>ethStake = 0, musdtStake = 0, pendingRewards = 0, lastUpdated = 0\<rparr>"

text \<open>
  The state after deployment: the token's constructor makes its deployer the controller,
  the ledger's constructor stores the token address, which it requires to be non-zero.
\<close>

definition deployed :: "address \<Rightarrow> address \<Rightarrow> address \<Rightarrow> 64 word \<Rightarrow> world" where
  "deployed ledger musdtAddress deployer t =
     \<lparr>stakes = (\<lambda>_. emptyStake), plain = (\<lambda>_. 0), handleCount = 0, acl = {},
      publicHandles = {},
      token = \<lparr>controller = deployer, stakingContract = 0, totalSupply = 0,
               balances = (\<lambda>_. None), operators = {}\<rparr>,
      self = ledger, musdt = musdtAddress, blockTime = t\<rparr>"

text \<open>
  The states the chain can be in: time never runs backwards, the ledger changes by
  transactions only, and the token contract may change its own state at will.
\<close>

inductive reachable :: "world \<Rightarrow> bool" where
  deploy: "musdtAddress \<noteq> 0 \<Longrightarrow> reachable (deployed ledger musdtAddress deployer t)"
| tick: "reachable w \<Longrightarrow> blockTime w \<le> t \<Longrightarrow> reachable (w\<lparr>blockTime := t\<rparr>)"
| ledger_call: "reachable w \<Longrightarrow> reachable (fst (transact (exec ev sender c) w))"
| token_call: "reachable w \<Longrightarrow> reachable (w\<lparr>token := tk\<rparr>)"

subsection \<open>Notions used by the properties\<close>

text \<open>
  The interest of one accrual as the specification words it, on the 128-bit domain of the
  ciphertexts: asset-1 interest \<open>(ethStake * elapsed) / SECONDS_PER_DAY / 10^12\<close> plus
  asset-2 interest \<open>(assetStake * elapsed) / (SECONDS_PER_DAY * 100)\<close>, and the same
  formula on the natural numbers.
\<close>

definition interest_spec :: "128 word \<Rightarrow> 128 word \<Rightarrow> 128 word \<Rightarrow> 128 word" where
  "interest_spec eth m e = (eth * e) div 86400 div 1000000000000 + (m * e) div (86400 * 100)"

definition interest_nat :: "nat \<Rightarrow> nat \<Rightarrow> nat \<Rightarrow> nat" where
  "interest_nat eth m e = (eth * e) div 86400 div 1000000000000 + (m * e) div (86400 * 100)"

text \<open>The handles of a position have been allocated by the coprocessor.\<close>

definition handles_ok :: "world \<Rightarrow> address \<Rightarrow> bool" where
  "handles_ok w u =
     (ethStake (stakes w u) \<le> handleCount w \<and> musdtStake (stakes w u) \<le> handleCount w \<and>
      pendingRewards (stakes w u) \<le> handleCount w)"

text \<open>
  The ledger and the owner may decrypt the handle, and it is publicly decryptable.
\<close>

definition shared :: "world \<Rightarrow> address \<Rightarrow> handle \<Rightarrow> bool" where
  "shared w u h = ((h, self w) \<in> acl w \<and> (h, u) \<in> acl w \<and> h \<in> publicHandles w)"

text \<open>
  Two parts of \<open>accrue\<close>, named for the proofs: the interest computation (the six
  homomorphic operations) and what follows it.
\<close>

definition interest_block :: "world \<Rightarrow> StakeInfo \<Rightarrow> 64 word \<Rightarrow> world \<times> euint128" where
  "interest_block w info elapsed =
     (let (w1, ethAccrued) = FHE_mul w (ethStake info) (ucast elapsed);
          (w2, ethAccrued) = FHE_div w1 ethAccrued (ucast SECONDS_PER_DAY);
          (w3, ethAccrued) = FHE_div w2 ethAccrued 1000000000000;
          (w4, musdtProduct) = FHE_mul w3 (musdtStake info) (ucast elapsed);
          (w5, musdtInterest) =
             FHE_div w4 musdtProduct (ucast (SECONDS_PER_DAY * PERCENT_DENOMINATOR))
      in FHE_add w5 ethAccrued musdtInterest)"

definition accrue_tail :: "address \<Rightarrow> StakeInfo \<Rightarrow> world \<times> euint128 \<Rightarrow> world" where
  "accrue_tail user info p =
     (let (w6, totalInterest) = p in
      if \<not> isInitialized totalInterest then
        update_info w6 user (\<lambda>i. i\<lparr>lastUpdated := blockTime w6\<rparr>)
      else
        let (w7, newPending) =
               (if isInitialized (pendingRewards info)
                then FHE_add w6 (pendingRewards info) totalInterest
                else (w6, totalInterest));
            w8 = update_info w7 user (\<lambda>i. i\<lparr>pendingRewards := newPending\<rparr>);
            w9 = shareValue w8 (pendingRewards (stakes w8 user)) user True
        in update_info w9 user (\<lambda>i. i\<lparr>lastUpdated := blockTime w9\<rparr>))"

text \<open>
  Modelled from the spec: the inherited \<^verbatim>\<open>confidentialTransferFrom\<close>, absent from the
  sources, which the specification describes as returning the amount actually
  transferred, limited by the asset itself, and as subject to operator authorisation. As
  in the token's library, it reverts unless the spender is the holder or an approved
  operator of the holder, unless both parties are non-zero addresses, and unless the
  holder's balance is initialized; it then moves the whole amount when the balance covers
  it and nothing otherwise, and returns what it moved. It serves the examples only: the
  theorems hold for every transfer function. The other collaborators of the examples are
  an input verifier that rejects an empty proof and reads the external handle as its own
  plaintext, a signature check that accepts, and a recipient that accepts value.
\<close>

definition erc7984_transferFrom ::
  "MockUSDT \<Rightarrow> address \<Rightarrow> address \<Rightarrow> address \<Rightarrow> 64 word \<Rightarrow> error + (MockUSDT \<times> 64 word)" where
  "erc7984_transferFrom tk spender src dst amount =
     (if \<not> (src = spender \<or> (src, spender) \<in> operators tk) then Inl TokenReverted
      else if src = 0 \<or> dst = 0 then Inl TokenReverted
      else case balances tk src of
        None \<Rightarrow> Inl TokenReverted
      | Some b \<Rightarrow>
          let success = (amount \<le> b);
              moved = (if success then amount else 0);
              tk1 = tk\<lparr>balances := (balances tk)(src := Some (b - moved))\<rparr>
          in Inr (tk1\<lparr>balances := (balances tk1)(dst := Some (balance_of tk1 dst + moved))\<rparr>,
                  moved))"

definition testEnv :: env where
  "testEnv = \<lparr>checkSignatures = (\<lambda>hs clear pf. True),
              fromExternal = (\<lambda>enc pf. if pf = [] then None else Some (ucast enc)),
              confidentialTransferFrom = erc7984_transferFrom,
              sendValue = (\<lambda>recipient amount. True)\<rparr>"

text \<open>A token state with controller 3 and the ledger at address 1 as staking contract.\<close>

definition testToken :: "64 word \<Rightarrow> (address \<Rightarrow> 64 word option) \<Rightarrow> (address \<times> address) set \<Rightarrow> MockUSDT" where
  "testToken supply bals ops =
     \<lparr>controller = 3, stakingContract = 1, totalSupply = supply, balances = bals,
      operators = ops\<rparr>"

text \<open>Ledger at address 1, token at address 2, deployed by address 3 at time 1000.\<close>

definition testWorld :: world where
  "testWorld = (deployed 1 2 3 1000)\<lparr>token := testToken 0 (\<lambda>_. None) {}\<rparr>"

abbreviation (input) accrued :: "world \<Rightarrow> address \<Rightarrow> 64 word \<Rightarrow> world" where
  "accrued w u e \<equiv> accrue_tail u (stakes w u) (interest_block w (stakes w u) e)"

text \<open>
  The test deployment one day and one second after address 5 staked one whole unit of
  asset-1 at time 1000.
\<close>

definition dayLater :: world where
  "dayLater = testWorld\<lparr>stakes := (\<lambda>_. emptyStake)(5 :=
                  \<lparr>ethStake = 1, musdtStake = 0, pendingRewards = 0, lastUpdated = 1000\<rparr>),
                plain := (\<lambda>_. 0)(1 := 1000000000000000000), handleCount := 1,
                acl := {(1, 5), (1, 1)}, publicHandles := {1}, blockTime := 87401\<rparr>"


text \<open>
  The 32-byte encoding of the number 5, and a token state in which address 5 holds 100
  units and has approved the ledger as operator.
\<close>

definition clearFive :: bytes where
  "clearFive = replicate 31 0 @ [5]"

definition fundedWorld :: world where
  "fundedWorld = testWorld\<lparr>token := testToken 100 ((\<lambda>_. None)(5 := Some 100)) {(5, 1)}\<rparr>"

text \<open>
  Three states one day and one second after a stake of address 5 at time 1000: a stake of
  \<open>2^64 * 10^12\<close> base units of asset-1 in the test deployment; a stake of one whole
  unit where the token has not been told of the ledger (its state after deployment); and
  a stake of one whole unit where the token's total supply is \<open>2^64 - 1\<close>, held by
  address 7.
\<close>

definition bigStake :: world where
  "bigStake = dayLater\<lparr>plain := (\<lambda>_. 0)(1 := 18446744073709551616000000000000)\<rparr>"

definition unlinked :: world where
  "unlinked = dayLater\<lparr>token := token (deployed 1 2 3 1000)\<rparr>"

definition fullSupply :: world where
  "fullSupply = dayLater\<lparr>token :=
     testToken 18446744073709551615 ((\<lambda>_. None)(7 := Some 18446744073709551615)) {}\<rparr>"

text \<open>
  The plaintext of \<open>pendingRewards\<close> once the accrual of a call has run, when that
  value is initialized, and the reward balance of an address as a number.
\<close>

definition pendingAfterAccrual :: "address \<Rightarrow> world \<Rightarrow> 128 word option" where
  "pendingAfterAccrual u w =
     (case accrue u w of
        Inl e \<Rightarrow> None
      | Inr w1 \<Rightarrow>
          if isInitialized (pendingRewards (stakes w1 u))
          then Some (val w1 (pendingRewards (stakes w1 u))) else None)"

definition rewardBalance :: "world \<Rightarrow> address \<Rightarrow> nat" where
  "rewardBalance w u = unat (balance_of (token w) u)"

text \<open>
  The interest of one accrual on the natural numbers as the 128-bit ciphertexts compute
  it: each product is taken modulo \<open>2^128\<close> before it is divided.
\<close>

definition interest_wrapped :: "nat \<Rightarrow> nat \<Rightarrow> nat \<Rightarrow> nat" where
  "interest_wrapped eth m e =
     ((eth * e) mod 2 ^ 128) div 86400 div 1000000000000 +
     ((m * e) mod 2 ^ 128) div (86400 * 100)"

text \<open>
  The two accrual scenarios: a single stake, then \<open>d\<close> seconds later a sync; the result
  is the plaintext of the pending rewards that the sync returns.
\<close>

definition stakeEth_then_sync :: "world \<Rightarrow> address \<Rightarrow> 256 word \<Rightarrow> 64 word \<Rightarrow> error + 128 word" where
  "stakeEth_then_sync w u msg_value d =
     (case stakeEth u msg_value w of
        Inl e \<Rightarrow> Inl e
      | Inr w1 \<Rightarrow>
          (case syncRewards u (w1\<lparr>blockTime := blockTime w1 + d\<rparr>) of
             Inl e \<Rightarrow> Inl e
           | Inr (w2, p) \<Rightarrow> Inr (val w2 p)))"

definition stakeMusdt_then_sync ::
  "env \<Rightarrow> world \<Rightarrow> address \<Rightarrow> externalEuint64 \<Rightarrow> bytes \<Rightarrow> 64 word \<Rightarrow> error + 128 word" where
  "stakeMusdt_then_sync ev w u enc pf d =
     (case stakeMusdt ev u enc pf w of
        Inl e \<Rightarrow> Inl e
      | Inr w1 \<Rightarrow>
          (case syncRewards u (w1\<lparr>blockTime := blockTime w1 + d\<rparr>) of
             Inl e \<Rightarrow> Inl e
           | Inr (w2, p) \<Rightarrow> Inr (val w2 p)))"

text \<open>
  The test deployment with 1,000,000 units of the token held by address 5, who has
  approved the ledger as operator.
\<close>

definition millionWorld :: world where
  "millionWorld =
     testWorld\<lparr>token := testToken 1000000 ((\<lambda>_. None)(5 := Some 1000000)) {(5, 1)}\<rparr>"

text \<open>
  What holds of every position in every reachable state: its checkpoint is not after the
  block time and its handles have been allocated.
\<close>

definition position_ok :: "world \<Rightarrow> address \<Rightarrow> bool" where
  "position_ok w u = (lastUpdated (stakes w u) \<le> blockTime w \<and> handles_ok w u)"

section \<open>Basic facts about the ciphertext operations\<close>

named_theorems fhe_simps

lemma fresh_sel [fhe_simps]:
  "stakes (fst (fresh w v)) = stakes w"
  "acl (fst (fresh w v)) = acl w"
  "publicHandles (fst (fresh w v)) = publicHandles w"
  "token (fst (fresh w v)) = token w"
  "self (fst (fresh w v)) = self w"
  "musdt (fst (fresh w v)) = musdt w"
  "blockTime (fst (fresh w v)) = blockTime w"
  "handleCount (fst (fresh w v)) = Suc (handleCount w)"
  "snd (fresh w v) = Suc (handleCount w)"
  "plain (fst (fresh w v)) = (plain w)(Suc (handleCount w) := v)"
  by (simp_all add: fresh_def Let_def)

lemma val_fresh [fhe_simps]:
  "val (fst (fresh w v)) h = (if h = Suc (handleCount w) then v else val w h)"
  by (simp add: val_def fresh_def Let_def isInitialized_def)

lemma update_info_sel [fhe_simps]:
  "stakes (update_info w u f) = (stakes w)(u := f (stakes w u))"
  "acl (update_info w u f) = acl w"
  "publicHandles (update_info w u f) = publicHandles w"
  "token (update_info w u f) = token w"
  "self (update_info w u f) = self w"
  "musdt (update_info w u f) = musdt w"
  "blockTime (update_info w u f) = blockTime w"
  "handleCount (update_info w u f) = handleCount w"
  "plain (update_info w u f) = plain w"
  "val (update_info w u f) h = val w h"
  by (simp_all add: update_info_def val_def)

lemma allow_sel [fhe_simps]:
  "stakes (FHE_allow w h a) = stakes w"
  "acl (FHE_allow w h a) = insert (h, a) (acl w)"
  "publicHandles (FHE_allow w h a) = publicHandles w"
  "token (FHE_allow w h a) = token w"
  "self (FHE_allow w h a) = self w"
  "musdt (FHE_allow w h a) = musdt w"
  "blockTime (FHE_allow w h a) = blockTime w"
  "handleCount (FHE_allow w h a) = handleCount w"
  "plain (FHE_allow w h a) = plain w"
  "val (FHE_allow w h a) k = val w k"
  by (simp_all add: FHE_allow_def val_def)

lemma public_sel [fhe_simps]:
  "stakes (FHE_makePubliclyDecryptable w h) = stakes w"
  "acl (FHE_makePubliclyDecryptable w h) = acl w"
  "publicHandles (FHE_makePubliclyDecryptable w h) = insert h (publicHandles w)"
  "token (FHE_makePubliclyDecryptable w h) = token w"
  "self (FHE_makePubliclyDecryptable w h) = self w"
  "musdt (FHE_makePubliclyDecryptable w h) = musdt w"
  "blockTime (FHE_makePubliclyDecryptable w h) = blockTime w"
  "handleCount (FHE_makePubliclyDecryptable w h) = handleCount w"
  "plain (FHE_makePubliclyDecryptable w h) = plain w"
  "val (FHE_makePubliclyDecryptable w h) k = val w k"
  by (simp_all add: FHE_makePubliclyDecryptable_def val_def)

lemma token_update_sel [fhe_simps]:
  "val (w\<lparr>token := tk\<rparr>) h = val w h"
  "val (w\<lparr>blockTime := t\<rparr>) h = val w h"
  by (simp_all add: val_def)

lemma val_uninitialized [fhe_simps]: "val w 0 = 0"
  by (simp add: val_def isInitialized_def)

lemmas op_defs = FHE_mul_def FHE_div_def FHE_add_def FHE_sub_def asEuint128_def asEuint64_def
  euint64_to_euint128_def FHE_allowThis_def shareValue_def isInitialized_def

lemma word_le_one_cases: "(x :: 64 word) \<le> 1 \<Longrightarrow> x = 0 \<or> x = 1"
  by (auto simp: word_le_less_eq)

lemma accrue_alt:
  "accrue user w =
     (let info = stakes w user in
      if lastUpdated info = 0 then
        Inr (update_info w user (\<lambda>i. i\<lparr>lastUpdated := blockTime w\<rparr>))
      else if blockTime w < lastUpdated info then Inl ArithmeticPanic
      else if blockTime w - lastUpdated info = 0 then Inr w
      else if blockTime w - lastUpdated info - 1 = 0 then Inr w
      else Inr (accrue_tail user info
                  (interest_block w info (blockTime w - lastUpdated info - 1))))"
  unfolding accrue_def interest_block_def accrue_tail_def Let_def case_prod_beta
  by (simp only: if_distrib [of Inr] cong: if_cong)

section \<open>The accrual routine\<close>

lemma interest_block_sel:
  "stakes (fst (interest_block w info e)) = stakes w"
  "acl (fst (interest_block w info e)) = acl w"
  "publicHandles (fst (interest_block w info e)) = publicHandles w"
  "token (fst (interest_block w info e)) = token w"
  "self (fst (interest_block w info e)) = self w"
  "musdt (fst (interest_block w info e)) = musdt w"
  "blockTime (fst (interest_block w info e)) = blockTime w"
  "handleCount (fst (interest_block w info e)) = handleCount w + 6"
  "snd (interest_block w info e) = handleCount w + 6"
  by (simp_all add: interest_block_def Let_def case_prod_beta op_defs fhe_simps)

lemma interest_block_old:
  "h \<le> handleCount w \<Longrightarrow> val (fst (interest_block w info e)) h = val w h"
  by (simp add: interest_block_def Let_def case_prod_beta op_defs fhe_simps)

lemma interest_block_val:
  "musdtStake info \<le> handleCount w \<Longrightarrow>
   val (fst (interest_block w info e)) (snd (interest_block w info e)) =
     interest_spec (val w (ethStake info)) (val w (musdtStake info)) (ucast e)"
  by (simp add: interest_block_def Let_def case_prod_beta op_defs fhe_simps interest_spec_def
      SECONDS_PER_DAY_def PERCENT_DENOMINATOR_def)



lemma accrue_tail_sel:
  "token (accrued w u e) = token w"
  "self (accrued w u e) = self w"
  "musdt (accrued w u e) = musdt w"
  "blockTime (accrued w u e) = blockTime w"
  by (simp_all add: accrue_tail_def Let_def case_prod_beta op_defs fhe_simps interest_block_sel)

lemma accrue_tail_stakes:
  "stakes (accrued w u e) =
     (stakes w)(u := (stakes w u)\<lparr>pendingRewards := handleCount (accrued w u e),
                                   lastUpdated := blockTime w\<rparr>)"
  by (simp add: accrue_tail_def Let_def case_prod_beta op_defs fhe_simps interest_block_sel)

lemma accrue_tail_count:
  "handleCount (accrued w u e) =
     (if pendingRewards (stakes w u) = 0 then handleCount w + 6 else handleCount w + 7)"
  by (simp add: accrue_tail_def Let_def case_prod_beta op_defs fhe_simps interest_block_sel)

lemma accrue_tail_acl:
  "acl (accrued w u e) =
     insert (handleCount (accrued w u e), u) (insert (handleCount (accrued w u e), self w) (acl w))"
  "publicHandles (accrued w u e) = insert (handleCount (accrued w u e)) (publicHandles w)"
  by (simp_all add: accrue_tail_def Let_def case_prod_beta op_defs fhe_simps interest_block_sel)

lemma accrue_tail_old:
  "h \<le> handleCount w \<Longrightarrow> val (accrued w u e) h = val w h"
  by (simp add: accrue_tail_def Let_def case_prod_beta op_defs fhe_simps interest_block_sel
      interest_block_old)

lemma accrue_tail_val:
  "musdtStake (stakes w u) \<le> handleCount w \<Longrightarrow> pendingRewards (stakes w u) \<le> handleCount w \<Longrightarrow>
   val (accrued w u e) (handleCount (accrued w u e)) =
     val w (pendingRewards (stakes w u)) +
     interest_spec (val w (ethStake (stakes w u))) (val w (musdtStake (stakes w u))) (ucast e)"
  using interest_block_val [of "stakes w u" w e] interest_block_sel(9) [of w "stakes w u" e]
  by (simp add: accrue_tail_def Let_def case_prod_beta op_defs fhe_simps interest_block_sel
      interest_block_old)

lemma word_gt_one: "(x :: 64 word) \<noteq> 0 \<Longrightarrow> x - 1 \<noteq> 0 \<Longrightarrow> 1 < x"
  by (metis word_le_one_cases diff_self not_less)

lemma accrue_cases:
  assumes "accrue u w = Inr w1"
  obtains
    (boot) "lastUpdated (stakes w u) = 0"
           "w1 = update_info w u (\<lambda>i. i\<lparr>lastUpdated := blockTime w\<rparr>)"
  | (idle) "lastUpdated (stakes w u) \<noteq> 0" "lastUpdated (stakes w u) \<le> blockTime w"
           "blockTime w - lastUpdated (stakes w u) \<le> 1" "w1 = w"
  | (run) "lastUpdated (stakes w u) \<noteq> 0" "lastUpdated (stakes w u) \<le> blockTime w"
          "1 < blockTime w - lastUpdated (stakes w u)"
          "w1 = accrued w u (blockTime w - lastUpdated (stakes w u) - 1)"
proof (cases "lastUpdated (stakes w u) = 0")
  case True
  with assms boot show ?thesis by (simp add: accrue_alt Let_def)
next
  case nz: False
  have nl: "\<not> blockTime w < lastUpdated (stakes w u)"
  proof
    assume "blockTime w < lastUpdated (stakes w u)"
    with assms nz show False by (simp add: accrue_alt Let_def)
  qed
  then have le: "lastUpdated (stakes w u) \<le> blockTime w" by (simp add: not_less)
  let ?e = "blockTime w - lastUpdated (stakes w u)"
  show ?thesis
  proof (cases "?e = 0 \<or> ?e - 1 = 0")
    case True
    then have "?e \<le> 1" by auto
    moreover from True assms nz nl have "w1 = w"
      by (auto simp add: accrue_alt Let_def split: if_splits)
    ultimately show ?thesis using idle nz le by blast
  next
    case False
    then have e0: "?e \<noteq> 0" and e1: "?e - 1 \<noteq> 0" by blast+
    then have "1 < ?e" by (rule word_gt_one)
    moreover have "accrue u w = Inr (accrued w u (?e - 1))"
      unfolding accrue_alt Let_def using nz nl e0 e1 by (simp only: if_False)
    with assms have "w1 = accrued w u (?e - 1)" by simp
    ultimately show ?thesis using run nz le by blast
  qed
qed

lemma accrue_succeeds:
  "lastUpdated (stakes w u) \<le> blockTime w \<Longrightarrow> \<exists>w1. accrue u w = Inr w1"
proof -
  assume "lastUpdated (stakes w u) \<le> blockTime w"
  then have "\<not> blockTime w < lastUpdated (stakes w u)" by (simp add: not_less)
  then show ?thesis by (simp add: accrue_alt Let_def)
qed

lemma accrue_frame:
  assumes "accrue u w = Inr w1"
  shows "token w1 = token w" "self w1 = self w" "musdt w1 = musdt w" "blockTime w1 = blockTime w"
  using assms by (cases rule: accrue_cases; simp add: fhe_simps accrue_tail_sel)+

lemma accrue_others:
  assumes "accrue u w = Inr w1" "v \<noteq> u"
  shows "stakes w1 v = stakes w v"
  using assms by (cases rule: accrue_cases) (simp_all add: fhe_simps accrue_tail_stakes)

lemma accrue_stakes_kept:
  assumes "accrue u w = Inr w1"
  shows "ethStake (stakes w1 u) = ethStake (stakes w u)"
    "musdtStake (stakes w1 u) = musdtStake (stakes w u)"
  using assms by (cases rule: accrue_cases; simp add: fhe_simps accrue_tail_stakes)+

lemma accrue_count_mono:
  assumes "accrue u w = Inr w1"
  shows "handleCount w \<le> handleCount w1"
  using assms by (cases rule: accrue_cases) (simp_all add: fhe_simps accrue_tail_count)

lemma accrue_val_old:
  assumes "accrue u w = Inr w1" "h \<le> handleCount w"
  shows "val w1 h = val w h"
  using assms by (cases rule: accrue_cases) (simp_all add: fhe_simps accrue_tail_old)

lemma accrue_acl_mono:
  assumes "accrue u w = Inr w1"
  shows "acl w \<subseteq> acl w1" "publicHandles w \<subseteq> publicHandles w1"
  using assms by (cases rule: accrue_cases; auto simp add: fhe_simps accrue_tail_acl)+

lemma accrue_pending:
  assumes "accrue u w = Inr w1"
  shows "pendingRewards (stakes w1 u) = pendingRewards (stakes w u) \<or>
         (shared w1 u (pendingRewards (stakes w1 u)) \<and> isInitialized (pendingRewards (stakes w1 u)) \<and>
          pendingRewards (stakes w1 u) = handleCount w1 \<and> handleCount w < handleCount w1)"
  using assms
  by (cases rule: accrue_cases)
     (simp_all add: fhe_simps accrue_tail_stakes accrue_tail_acl accrue_tail_sel shared_def
        isInitialized_def accrue_tail_count)

lemma accrue_lastUpdated:
  assumes "accrue u w = Inr w1"
  shows "lastUpdated (stakes w1 u) = blockTime w \<or>
         (lastUpdated (stakes w1 u) = lastUpdated (stakes w u) \<and> lastUpdated (stakes w u) \<noteq> 0 \<and>
          lastUpdated (stakes w u) \<le> blockTime w \<and> blockTime w - lastUpdated (stakes w u) \<le> 1)"
  using assms by (cases rule: accrue_cases) (simp_all add: fhe_simps accrue_tail_stakes)

lemma accrue_handles_ok:
  assumes "accrue u w = Inr w1" "handles_ok w v"
  shows "handles_ok w1 v"
  using assms
  by (cases rule: accrue_cases)
     (auto simp add: fhe_simps accrue_tail_stakes accrue_tail_count handles_ok_def)

lemma unat_ucast_64_128: "unat (ucast (e :: 64 word) :: 128 word) = unat e"
proof -
  have "unat e < 2 ^ 64" using unsigned_less [of e] by simp
  then have "unat e < 2 ^ 128" by (rule less_trans) simp
  then show ?thesis by (simp add: unsigned_ucast_eq take_bit_nat_eq_self)
qed

lemma div_chain_le: "(X::nat) div 86400 div 1000000000000 \<le> X div 2"
proof -
  have "X div 86400 div 1000000000000 \<le> X div 86400" by (rule div_le_dividend)
  also have "\<dots> \<le> X div 2" by (rule div_le_mono2) simp_all
  finally show ?thesis .
qed

lemma div_big_le: "(Y::nat) div 8640000 \<le> Y div 2"
  by (rule div_le_mono2) simp_all

lemma interest_spec_nat:
  fixes eth m e :: "128 word"
  assumes "unat eth * unat e < 2 ^ 128" "unat m * unat e < 2 ^ 128"
  shows "unat (interest_spec eth m e) = interest_nat (unat eth) (unat m) (unat e)"
proof -
  have a: "unat (eth * e) = unat eth * unat e"
    using assms(1) by (intro unat_mult_lem [THEN iffD1]) simp
  have b: "unat (m * e) = unat m * unat e"
    using assms(2) by (intro unat_mult_lem [THEN iffD1]) simp
  let ?x = "(eth * e) div 86400 div 1000000000000"
  let ?y = "(m * e) div (86400 * 100)"
  have x: "unat ?x = unat eth * unat e div 86400 div 1000000000000"
    by (simp add: unat_div a)
  have y: "unat ?y = unat m * unat e div 8640000"
    by (simp add: unat_div b)
  have "unat ?x + unat ?y < 2 ^ 128"
    using div_chain_le [of "unat eth * unat e"] div_big_le [of "unat m * unat e"] assms
    unfolding x y by linarith
  then have "unat (?x + ?y) = unat ?x + unat ?y"
    by (intro unat_add_lem [THEN iffD1]) simp
  then show ?thesis
    unfolding interest_spec_def interest_nat_def x y by simp
qed

lemma stakeEth_effect:
  assumes "stakeEth s v w = Inr w'"
  shows "\<exists>w1. accrue s w = Inr w1 \<and> v \<noteq> 0 \<and> v \<le> 2 ^ 128 - 1 \<and>
     token w' = token w1 \<and> self w' = self w1 \<and> musdt w' = musdt w1 \<and>
     blockTime w' = blockTime w1 \<and>
     stakes w' = (stakes w1)(s := (stakes w1 s)\<lparr>ethStake := handleCount w',
                                                 lastUpdated := blockTime w1\<rparr>) \<and>
     acl w' = insert (handleCount w', s) (insert (handleCount w', self w1) (acl w1)) \<and>
     publicHandles w' = insert (handleCount w') (publicHandles w1) \<and>
     handleCount w1 < handleCount w' \<and>
     (\<forall>h\<le>handleCount w1. val w' h = val w1 h) \<and>
     (ethStake (stakes w1 s) \<le> handleCount w1 \<longrightarrow>
        val w' (handleCount w') = val w1 (ethStake (stakes w1 s)) + ucast v)"
proof -
  from assms have v: "v \<noteq> 0" "v \<le> 2 ^ 128 - 1"
    by (auto simp add: stakeEth_def not_less split: if_splits)
  then have nv: "\<not> (v = 0 \<or> v > 2 ^ 128 - 1)" by (simp add: not_less)
  from assms nv obtain w1 where acc: "accrue s w = Inr w1"
    by (cases "accrue s w") (simp_all add: stakeEth_def)
  show ?thesis
  proof (cases "ethStake (stakes w1 s) = 0")
    case True
    with assms acc nv show ?thesis
      by (auto simp add: stakeEth_def Let_def case_prod_beta op_defs fhe_simps)
  next
    case False
    with assms acc nv show ?thesis
      by (auto simp add: stakeEth_def Let_def case_prod_beta op_defs fhe_simps)
  qed
qed


lemma stakeMusdt_effect:
  assumes "stakeMusdt ev s enc pf w = Inr w'"
  shows "\<exists>w1 amount tk moved. accrue s w = Inr w1 \<and> fromExternal ev enc pf = Some amount \<and>
     confidentialTransferFrom ev (token w1) (self w1) s (self w1) amount = Inr (tk, moved) \<and>
     token w' = tk \<and> self w' = self w1 \<and> musdt w' = musdt w1 \<and>
     blockTime w' = blockTime w1 \<and>
     stakes w' = (stakes w1)(s := (stakes w1 s)\<lparr>musdtStake := handleCount w',
                                                 lastUpdated := blockTime w1\<rparr>) \<and>
     acl w1 \<subseteq> acl w' \<and> (handleCount w', s) \<in> acl w' \<and> (handleCount w', self w1) \<in> acl w' \<and>
     publicHandles w1 \<subseteq> publicHandles w' \<and> handleCount w' \<in> publicHandles w' \<and>
     handleCount w1 < handleCount w' \<and>
     (\<forall>h\<le>handleCount w1. val w' h = val w1 h) \<and>
     (musdtStake (stakes w1 s) \<le> handleCount w1 \<longrightarrow>
        val w' (handleCount w') = val w1 (musdtStake (stakes w1 s)) + ucast moved)"
proof -
  from assms obtain w1 where acc: "accrue s w = Inr w1"
    by (cases "accrue s w") (simp_all add: stakeMusdt_def)
  from assms acc obtain amount where ext: "fromExternal ev enc pf = Some amount"
    by (cases "fromExternal ev enc pf") (simp_all add: stakeMusdt_def)
  from assms acc ext obtain tk moved where
    tr: "confidentialTransferFrom ev (token w1) (self w1) s (self w1) amount = Inr (tk, moved)"
    by (cases "confidentialTransferFrom ev (token w1) (self w1) s (self w1) amount")
       (auto simp add: stakeMusdt_def Let_def case_prod_beta fhe_simps)
  show ?thesis
  proof (cases "musdtStake (stakes w1 s) = 0")
    case True
    with assms acc ext tr show ?thesis
      by (auto simp add: stakeMusdt_def Let_def case_prod_beta op_defs fhe_simps)
  next
    case False
    with assms acc ext tr show ?thesis
      by (auto simp add: stakeMusdt_def Let_def case_prod_beta op_defs fhe_simps)
  qed
qed

lemma withdrawEth_effect:
  assumes "withdrawEth ev s amount clear pf w = Inr w'"
  shows "\<exists>w1 d. accrue s w = Inr w1 \<and> amount \<noteq> 0 \<and> isInitialized (ethStake (stakes w1 s)) \<and>
     checkSignatures ev [ethStake (stakes w1 s)] clear pf \<and>
     abi_decode_uint256 clear = Some d \<and> ucast amount \<le> d \<and> sendValue ev s amount \<and>
     token w' = token w1 \<and> self w' = self w1 \<and> musdt w' = musdt w1 \<and>
     blockTime w' = blockTime w1 \<and>
     stakes w' = (stakes w1)(s := (stakes w1 s)\<lparr>ethStake := handleCount w',
                                                 lastUpdated := blockTime w1\<rparr>) \<and>
     acl w1 \<subseteq> acl w' \<and> (handleCount w', s) \<in> acl w' \<and> (handleCount w', self w1) \<in> acl w' \<and>
     publicHandles w1 \<subseteq> publicHandles w' \<and> handleCount w' \<in> publicHandles w' \<and>
     handleCount w1 < handleCount w' \<and>
     (\<forall>h\<le>handleCount w1. val w' h = val w1 h) \<and>
     (ethStake (stakes w1 s) \<le> handleCount w1 \<longrightarrow>
        val w' (handleCount w') = val w1 (ethStake (stakes w1 s)) - amount)"
proof -
  from assms have nz: "amount \<noteq> 0"
    by (auto simp add: withdrawEth_def split: if_splits)
  from assms nz obtain w1 where acc: "accrue s w = Inr w1"
    by (cases "accrue s w") (simp_all add: withdrawEth_def)
  from assms nz acc have ini: "isInitialized (ethStake (stakes w1 s))"
    by (auto simp add: withdrawEth_def Let_def split: if_splits)
  from assms nz acc ini have sig: "checkSignatures ev [ethStake (stakes w1 s)] clear pf"
    by (auto simp add: withdrawEth_def Let_def split: if_splits)
  from assms nz acc ini sig obtain d where dec: "abi_decode_uint256 clear = Some d"
    by (cases "abi_decode_uint256 clear") (simp_all add: withdrawEth_def Let_def)
  from assms nz acc ini sig dec
  have le: "\<not> (ucast amount > d \<or> (ucast amount :: 256 word) > 2 ^ 128 - 1)"
    by (auto simp add: withdrawEth_def Let_def split: if_splits)
  from assms nz acc ini sig dec le have snt: "sendValue ev s amount"
    by (auto simp add: withdrawEth_def Let_def case_prod_beta split: if_splits)
  from le have le': "ucast amount \<le> d" by (simp add: not_less)
  from assms nz acc ini sig dec le snt le' show ?thesis
    by (auto simp add: withdrawEth_def Let_def case_prod_beta op_defs fhe_simps)
qed

lemma ucast_down_up_down:
  "(ucast (ucast (ucast (x :: 128 word) :: 64 word) :: 128 word) :: 64 word) = ucast x"
  by (simp add: ucast_up_ucast_id is_up)

lemma claimRewards_effect:
  assumes "claimRewards s w = Inr w'"
  shows "\<exists>w1. accrue s w = Inr w1 \<and> isInitialized (pendingRewards (stakes w1 s)) \<and>
     onlyMinter (token w1) (self w1) \<and>
     token w' = fst (mint_internal (token w1) s (ucast (val w1 (pendingRewards (stakes w1 s))))) \<and>
     self w' = self w1 \<and> musdt w' = musdt w1 \<and> blockTime w' = blockTime w1 \<and>
     stakes w' = (stakes w1)(s := (stakes w1 s)\<lparr>pendingRewards := handleCount w',
                                                 lastUpdated := blockTime w1\<rparr>) \<and>
     acl w1 \<subseteq> acl w' \<and> (handleCount w', s) \<in> acl w' \<and> (handleCount w', self w1) \<in> acl w' \<and>
     publicHandles w1 \<subseteq> publicHandles w' \<and> handleCount w' \<in> publicHandles w' \<and>
     handleCount w1 < handleCount w' \<and>
     (\<forall>h\<le>handleCount w1. val w' h = val w1 h) \<and>
     val w' (handleCount w') = 0"
proof -
  from assms obtain w1 where acc: "accrue s w = Inr w1"
    by (cases "accrue s w") (simp_all add: claimRewards_def)
  from assms acc have ini: "isInitialized (pendingRewards (stakes w1 s))"
    by (auto simp add: claimRewards_def Let_def split: if_splits)
  from assms acc ini have auth: "onlyMinter (token w1) (self w1)"
    by (auto simp add: claimRewards_def Let_def case_prod_beta op_defs fhe_simps
        mintEncrypted_def split: if_splits)
  from assms acc ini auth show ?thesis
    by (auto simp add: claimRewards_def Let_def case_prod_beta op_defs fhe_simps
        mintEncrypted_def ucast_down_up_down)
qed

lemma dayLater_simps:
  "stakes dayLater 5 = \<lparr>ethStake = 1, musdtStake = 0, pendingRewards = 0, lastUpdated = 1000\<rparr>"
  "blockTime dayLater = 87401" "handleCount dayLater = 1"
  "val dayLater (Suc 0) = 1000000000000000000" "val dayLater 0 = 0"
  by (simp_all add: dayLater_def testWorld_def deployed_def val_def isInitialized_def)

lemma testWorld_simps:
  "stakes testWorld u = emptyStake" "blockTime testWorld = 1000" "handleCount testWorld = 0"
  "self testWorld = 1" "musdt testWorld = 2" "acl testWorld = {}" "publicHandles testWorld = {}"
  "token testWorld = testToken 0 (\<lambda>_. None) {}"
  by (simp_all add: testWorld_def deployed_def)

lemma stakeEth_rejected:
  "msg_value = 0 \<or> msg_value > 2 ^ 128 - 1 \<Longrightarrow> stakeEth sender msg_value w = Inl InvalidAmount"
  by (simp add: stakeEth_def)

lemma transact_failure_keeps_state:
  "snd (transact f w) = Some e \<Longrightarrow> fst (transact f w) = w"
  by (cases "f w") (simp_all add: transact_def)

lemma withdrawEth_above_attested:
  assumes clock: "lastUpdated (stakes w s) \<le> blockTime w"
    and sig: "checkSignatures ev [ethStake (stakes w s)] clear pf"
    and dec: "abi_decode_uint256 clear = Some d"
    and gt: "d < ucast amount"
  shows "withdrawEth ev s amount clear pf w = Inl InvalidAmount"
proof -
  from clock obtain w1 where acc: "accrue s w = Inr w1" using accrue_succeeds by blast
  have eth: "ethStake (stakes w1 s) = ethStake (stakes w s)"
    using acc by (rule accrue_stakes_kept)
  from acc eth sig dec gt show ?thesis
    by (simp add: withdrawEth_def Let_def)
qed

lemma withdrawEth_transfer_fails:
  assumes clock: "lastUpdated (stakes w s) \<le> blockTime w"
    and nz: "amount \<noteq> 0"
    and ini: "isInitialized (ethStake (stakes w s))"
    and sig: "checkSignatures ev [ethStake (stakes w s)] clear pf"
    and dec: "abi_decode_uint256 clear = Some d"
    and le: "ucast amount \<le> d"
    and snt: "\<not> sendValue ev s amount"
  shows "withdrawEth ev s amount clear pf w = Inl TransferFailed"
proof -
  from clock obtain w1 where acc: "accrue s w = Inr w1" using accrue_succeeds by blast
  have eth: "ethStake (stakes w1 s) = ethStake (stakes w s)"
    using acc by (rule accrue_stakes_kept)
  have up: "\<not> (ucast amount :: 256 word) > 2 ^ 128 - 1"
  proof -
    have "uint (ucast amount :: 256 word) = uint amount"
      by (simp add: uint_up_ucast is_up)
    moreover have "uint amount < 2 ^ 128" using uint_lt2p [of amount] by simp
    ultimately have "uint (ucast amount :: 256 word) \<le> uint (2 ^ 128 - 1 :: 256 word)"
      by simp
    then show ?thesis by (simp add: word_le_def not_less)
  qed
  from le have le': "\<not> d < ucast amount" by (simp add: not_less)
  from acc eth nz ini sig dec le' up snt show ?thesis
    by (simp add: withdrawEth_def Let_def case_prod_beta)
qed

lemma clearFive_decodes: "abi_decode_uint256 clearFive = Some 5"
  by (simp add: abi_decode_uint256_def clearFive_def) code_simp

lemma stakeMusdt_succeeds:
  assumes "accrue s w = Inr w1" "fromExternal ev enc pf = Some amount"
    "confidentialTransferFrom ev (token w1) (self w1) s (self w1) amount = Inr (tk, moved)"
  shows "\<exists>w'. stakeMusdt ev s enc pf w = Inr w'"
  using assms by (simp add: stakeMusdt_def Let_def case_prod_beta fhe_simps)

lemma fundedWorld_simps:
  "stakes fundedWorld u = emptyStake" "blockTime fundedWorld = 1000" "handleCount fundedWorld = 0"
  "self fundedWorld = 1" "musdt fundedWorld = 2"
  "token fundedWorld = testToken 100 ((\<lambda>_. None)(5 := Some 100)) {(5, 1)}"
  "val fundedWorld 0 = 0"
  by (simp_all add: fundedWorld_def testWorld_def deployed_def val_def isInitialized_def)

lemma shared_mono:
  assumes "shared w1 u h" "acl w1 \<subseteq> acl w'" "publicHandles w1 \<subseteq> publicHandles w'"
    "self w' = self w1"
  shows "shared w' u h"
  using assms by (auto simp add: shared_def)

lemma accrue_shared:
  assumes "accrue u w = Inr w1"
  shows "ethStake (stakes w1 v) = ethStake (stakes w v)"
    "musdtStake (stakes w1 v) = musdtStake (stakes w v)"
    "pendingRewards (stakes w1 v) \<noteq> pendingRewards (stakes w v) \<Longrightarrow>
       shared w1 v (pendingRewards (stakes w1 v))"
proof -
  show "ethStake (stakes w1 v) = ethStake (stakes w v)"
    using accrue_stakes_kept(1) [OF assms] accrue_others [OF assms, of v] by (cases "v = u") auto
  show "musdtStake (stakes w1 v) = musdtStake (stakes w v)"
    using accrue_stakes_kept(2) [OF assms] accrue_others [OF assms, of v] by (cases "v = u") auto
  show "shared w1 v (pendingRewards (stakes w1 v))"
    if "pendingRewards (stakes w1 v) \<noteq> pendingRewards (stakes w v)"
    using that accrue_pending [OF assms] accrue_others [OF assms, of v] by (cases "v = u") auto
qed

lemma stakeEth_succeeds:
  assumes "v \<noteq> 0" "v \<le> 2 ^ 128 - 1" "accrue s w = Inr w1"
  shows "\<exists>w'. stakeEth s v w = Inr w'"
proof -
  from assms(1,2) have "\<not> (v = 0 \<or> v > 2 ^ 128 - 1)" by (simp add: not_less)
  with assms(3) show ?thesis by (simp add: stakeEth_def Let_def case_prod_beta)
qed

lemma claimRewards_succeeds:
  assumes "accrue s w = Inr w1" "isInitialized (pendingRewards (stakes w1 s))"
    "onlyMinter (token w1) (self w1)"
  shows "\<exists>w'. claimRewards s w = Inr w'"
  using assms
  by (simp add: claimRewards_def Let_def case_prod_beta op_defs fhe_simps mintEncrypted_def)

lemma claimRewards_without_rewards:
  assumes "accrue s w = Inr w1" "\<not> isInitialized (pendingRewards (stakes w1 s))"
  shows "claimRewards s w = Inl NoRewardsAvailable"
  using assms by (simp add: claimRewards_def Let_def)

lemma unat_ucast_128_64:
  fixes x :: "128 word"
  assumes "x < 2 ^ 64"
  shows "unat (ucast x :: 64 word) = unat x"
proof -
  from assms have "unat x < 2 ^ 64"
    by (simp add: word_less_nat_alt)
  then show ?thesis by (simp add: unsigned_ucast_eq take_bit_nat_eq_self)
qed

lemma sync_run:
  assumes "lastUpdated (stakes w u) \<noteq> 0" "lastUpdated (stakes w u) \<le> blockTime w"
    "1 < blockTime w - lastUpdated (stakes w u)"
    "musdtStake (stakes w u) \<le> handleCount w" "pendingRewards (stakes w u) \<le> handleCount w"
  shows "\<exists>w2 p. syncRewards u w = Inr (w2, p) \<and>
     val w2 p = val w (pendingRewards (stakes w u)) +
       interest_spec (val w (ethStake (stakes w u))) (val w (musdtStake (stakes w u)))
         (ucast (blockTime w - lastUpdated (stakes w u) - 1))"
proof -
  let ?d = "blockTime w - lastUpdated (stakes w u)"
  from assms(2) obtain w1 where acc: "accrue u w = Inr w1" using accrue_succeeds by blast
  from acc have w1: "w1 = accrued w u (?d - 1)"
  proof (cases rule: accrue_cases)
    case boot with assms(1) show ?thesis by simp
  next
    case idle with assms(3) show ?thesis by (simp add: not_less [symmetric])
  next
    case run then show ?thesis by simp
  qed
  have p: "pendingRewards (stakes w1 u) = handleCount w1"
    unfolding w1 by (simp add: accrue_tail_stakes)
  have "val w1 (handleCount w1) = val w (pendingRewards (stakes w u)) +
       interest_spec (val w (ethStake (stakes w u))) (val w (musdtStake (stakes w u)))
         (ucast (?d - 1))"
    unfolding w1 by (rule accrue_tail_val [OF assms(4) assms(5)])
  with acc p show ?thesis by (simp add: syncRewards_def)
qed

lemma one_less_day: "(1 :: 64 word) < 86401" "(1 :: 64 word) < 86400"
  by (simp_all add: word_less_nat_alt)

lemma millionWorld_simps:
  "stakes millionWorld u = emptyStake" "blockTime millionWorld = 1000"
  "self millionWorld = 1"
  "token millionWorld = testToken 1000000 ((\<lambda>_. None)(5 := Some 1000000)) {(5, 1)}"
  by (simp_all add: millionWorld_def testWorld_def deployed_def)

lemma stakeEth_then_sync_fresh:
  assumes "stakes w u = emptyStake" "blockTime w \<noteq> 0" "blockTime w \<le> blockTime w + d" "1 < d"
    and "v \<noteq> 0" "v \<le> 2 ^ 128 - 1"
  shows "stakeEth_then_sync w u v d = Inr (interest_spec (ucast v) 0 (ucast (d - 1)))"
proof -
  let ?wa = "update_info w u (\<lambda>i. i\<lparr>lastUpdated := blockTime w\<rparr>)"
  have acc: "accrue u w = Inr ?wa"
    using assms(1) by (simp add: accrue_alt Let_def emptyStake_def)
  from stakeEth_succeeds [OF assms(5) assms(6) acc]
  obtain w1 where w1: "stakeEth u v w = Inr w1" by auto
  from stakeEth_effect [OF w1] acc assms(1)
  have st: "stakes w1 u = \<lparr>ethStake = handleCount w1, musdtStake = 0, pendingRewards = 0,
              lastUpdated = blockTime w\<rparr>"
    and bt: "blockTime w1 = blockTime w"
    and v: "val w1 (handleCount w1) = ucast v"
    by (auto simp add: fhe_simps emptyStake_def)
  let ?wt = "w1\<lparr>blockTime := blockTime w1 + d\<rparr>"
  have "\<exists>w2 p. syncRewards u ?wt = Inr (w2, p) \<and>
     val w2 p = val ?wt (pendingRewards (stakes ?wt u)) +
       interest_spec (val ?wt (ethStake (stakes ?wt u))) (val ?wt (musdtStake (stakes ?wt u)))
         (ucast (blockTime ?wt - lastUpdated (stakes ?wt u) - 1))"
    by (rule sync_run) (use assms st bt in simp_all)
  then show ?thesis
    using w1 st bt v by (auto simp add: stakeEth_then_sync_def fhe_simps)
qed

lemma stakeMusdt_then_sync_fresh:
  assumes "stakes w u = emptyStake" "blockTime w \<noteq> 0" "blockTime w \<le> blockTime w + d" "1 < d"
    and "fromExternal ev enc pf = Some amount"
    and "confidentialTransferFrom ev (token w) (self w) u (self w) amount = Inr (tk, moved)"
  shows "stakeMusdt_then_sync ev w u enc pf d = Inr (interest_spec 0 (ucast moved) (ucast (d - 1)))"
proof -
  let ?wa = "update_info w u (\<lambda>i. i\<lparr>lastUpdated := blockTime w\<rparr>)"
  have acc: "accrue u w = Inr ?wa"
    using assms(1) by (simp add: accrue_alt Let_def emptyStake_def)
  from stakeMusdt_succeeds [OF acc assms(5), of tk moved] assms(6)
  obtain w1 where w1: "stakeMusdt ev u enc pf w = Inr w1" by (auto simp add: fhe_simps)
  from stakeMusdt_effect [OF w1] acc assms(1) assms(5) assms(6)
  have st: "stakes w1 u = \<lparr>ethStake = 0, musdtStake = handleCount w1, pendingRewards = 0,
              lastUpdated = blockTime w\<rparr>"
    and bt: "blockTime w1 = blockTime w"
    and v: "val w1 (handleCount w1) = ucast moved"
    by (auto simp add: fhe_simps emptyStake_def)
  let ?wt = "w1\<lparr>blockTime := blockTime w1 + d\<rparr>"
  have "\<exists>w2 p. syncRewards u ?wt = Inr (w2, p) \<and>
     val w2 p = val ?wt (pendingRewards (stakes ?wt u)) +
       interest_spec (val ?wt (ethStake (stakes ?wt u))) (val ?wt (musdtStake (stakes ?wt u)))
         (ucast (blockTime ?wt - lastUpdated (stakes ?wt u) - 1))"
    by (rule sync_run) (use assms st bt in simp_all)
  then show ?thesis
    using w1 st bt v by (auto simp add: stakeMusdt_then_sync_def fhe_simps)
qed

lemma accrue_position_ok:
  assumes "accrue u w = Inr w1" "position_ok w v"
  shows "position_ok w1 v"
proof -
  have h: "handles_ok w1 v" using assms by (simp add: position_ok_def accrue_handles_ok)
  have bt: "blockTime w1 = blockTime w" using assms(1) by (rule accrue_frame)
  have "lastUpdated (stakes w1 v) \<le> blockTime w"
  proof (cases "v = u")
    case True
    with accrue_lastUpdated [OF assms(1)] assms(2) show ?thesis
      by (auto simp add: position_ok_def)
  next
    case False
    with accrue_others [OF assms(1), of v] assms(2) show ?thesis
      by (simp add: position_ok_def)
  qed
  with h bt show ?thesis by (simp add: position_ok_def)
qed

lemma exec_position_ok:
  assumes "exec ev s c w = Inr w'" "position_ok w v"
  shows "position_ok w' v"
proof (cases c)
  case (StakeEth msg_value)
  with assms have "stakeEth s msg_value w = Inr w'" by simp
  from stakeEth_effect [OF this] obtain w1 where acc: "accrue s w = Inr w1"
    and st: "stakes w' = (stakes w1)(s := (stakes w1 s)\<lparr>ethStake := handleCount w',
                 lastUpdated := blockTime w1\<rparr>)"
    and fr: "blockTime w' = blockTime w1" "handleCount w1 < handleCount w'"
    by auto
  from accrue_position_ok [OF acc assms(2)] accrue_position_ok [OF acc, of s] st fr
  show ?thesis by (auto simp add: position_ok_def handles_ok_def)
next
  case (StakeMusdt enc pf)
  with assms have "stakeMusdt ev s enc pf w = Inr w'" by simp
  from stakeMusdt_effect [OF this] obtain w1 where acc: "accrue s w = Inr w1"
    and st: "stakes w' = (stakes w1)(s := (stakes w1 s)\<lparr>musdtStake := handleCount w',
                 lastUpdated := blockTime w1\<rparr>)"
    and fr: "blockTime w' = blockTime w1" "handleCount w1 < handleCount w'"
    by auto
  from accrue_position_ok [OF acc assms(2)] st fr
  show ?thesis by (auto simp add: position_ok_def handles_ok_def)
next
  case (WithdrawEth amount clear pf)
  with assms have "withdrawEth ev s amount clear pf w = Inr w'" by simp
  from withdrawEth_effect [OF this] obtain w1 where acc: "accrue s w = Inr w1"
    and st: "stakes w' = (stakes w1)(s := (stakes w1 s)\<lparr>ethStake := handleCount w',
                 lastUpdated := blockTime w1\<rparr>)"
    and fr: "blockTime w' = blockTime w1" "handleCount w1 < handleCount w'"
    by auto
  from accrue_position_ok [OF acc assms(2)] st fr
  show ?thesis by (auto simp add: position_ok_def handles_ok_def)
next
  case ClaimRewards
  with assms have "claimRewards s w = Inr w'" by simp
  from claimRewards_effect [OF this] obtain w1 where acc: "accrue s w = Inr w1"
    and st: "stakes w' = (stakes w1)(s := (stakes w1 s)\<lparr>pendingRewards := handleCount w',
                 lastUpdated := blockTime w1\<rparr>)"
    and fr: "blockTime w' = blockTime w1" "handleCount w1 < handleCount w'"
    by auto
  from accrue_position_ok [OF acc assms(2)] st fr
  show ?thesis by (auto simp add: position_ok_def handles_ok_def)
next
  case SyncRewards
  with assms have "accrue s w = Inr w'"
    by (auto simp add: syncRewards_def split: sum.splits)
  then show ?thesis using assms(2) by (rule accrue_position_ok)
qed

lemma reachable_all_positions_ok: "reachable w \<Longrightarrow> \<forall>u. position_ok w u"
proof (induction rule: reachable.induct)
  case (deploy musdtAddress ledger deployer t)
  show ?case by (simp add: position_ok_def handles_ok_def deployed_def emptyStake_def)
next
  case (tick w t)
  show ?case
  proof
    fix u
    from tick.IH have "lastUpdated (stakes w u) \<le> blockTime w" "handles_ok w u"
      by (simp_all add: position_ok_def)
    with tick.hyps(2) have "lastUpdated (stakes w u) \<le> t" by (meson order_trans)
    with \<open>handles_ok w u\<close> show "position_ok (w\<lparr>blockTime := t\<rparr>) u"
      by (simp add: position_ok_def handles_ok_def)
  qed
next
  case (ledger_call w ev sender c)
  show ?case
  proof (cases "exec ev sender c w")
    case (Inl e)
    with ledger_call.IH show ?thesis by (simp add: transact_def)
  next
    case (Inr w')
    with ledger_call.IH exec_position_ok [OF Inr] show ?thesis by (simp add: transact_def)
  qed
next
  case (token_call w tk)
  then show ?case by (simp add: position_ok_def handles_ok_def)
qed

lemma reachable_position_ok: "reachable w \<Longrightarrow> position_ok w u"
  using reachable_all_positions_ok by blast

text \<open>The example states are what the calls produce from the test deployment.\<close>

lemma dayLater_is_reached:
  "stakeEth 5 1000000000000000000 testWorld = Inr (dayLater\<lparr>blockTime := 1000\<rparr>)"
proof -
  have acc: "accrue 5 testWorld = Inr (update_info testWorld 5 (\<lambda>i. i\<lparr>lastUpdated := 1000\<rparr>))"
    by (simp add: accrue_alt Let_def testWorld_simps emptyStake_def)
  show ?thesis
    unfolding stakeEth_def acc
    by (simp add: Let_def case_prod_beta op_defs fresh_def update_info_def FHE_allow_def
        FHE_makePubliclyDecryptable_def dayLater_def testWorld_def deployed_def emptyStake_def
        fun_eq_iff insert_commute)
qed


lemma interest_spec_wrapped:
  fixes eth m e :: "128 word"
  shows "unat (interest_spec eth m e) = interest_wrapped (unat eth) (unat m) (unat e)"
proof -
  let ?X = "(unat eth * unat e) mod 2 ^ 128"
  let ?Y = "(unat m * unat e) mod 2 ^ 128"
  have a: "unat (eth * e) = ?X" by (simp add: unat_word_ariths)
  have b: "unat (m * e) = ?Y" by (simp add: unat_word_ariths)
  let ?x = "(eth * e) div 86400 div 1000000000000"
  let ?y = "(m * e) div (86400 * 100)"
  have x: "unat ?x = ?X div 86400 div 1000000000000"
    by (simp add: unat_div a)
  have y: "unat ?y = ?Y div 8640000"
    by (simp add: unat_div b)
  have X: "?X < 2 ^ 128" and Y: "?Y < 2 ^ 128" by simp_all
  have "unat ?x + unat ?y < 2 ^ 128"
    using div_chain_le [of ?X] div_big_le [of ?Y] X Y unfolding x y by linarith
  then have "unat (?x + ?y) = unat ?x + unat ?y"
    by (intro unat_add_lem [THEN iffD1]) simp
  then show ?thesis
    unfolding interest_spec_def interest_wrapped_def x y by simp
qed

lemma testToken_simps:
  "controller (testToken n b ops) = 3" "stakingContract (testToken n b ops) = 1"
  "totalSupply (testToken n b ops) = n" "balances (testToken n b ops) = b"
  "operators (testToken n b ops) = ops"
  by (simp_all add: testToken_def)

lemma claimRewards_unauthorised:
  assumes "accrue s w = Inr w1" "isInitialized (pendingRewards (stakes w1 s))"
    "\<not> onlyMinter (token w1) (self w1)"
  shows "claimRewards s w = Inl Unauthorized"
  using assms
  by (simp add: claimRewards_def Let_def case_prod_beta op_defs fhe_simps mintEncrypted_def)

lemma bigStake_simps:
  "stakes bigStake 5 = \<lparr>ethStake = 1, musdtStake = 0, pendingRewards = 0, lastUpdated = 1000\<rparr>"
  "blockTime bigStake = 87401" "handleCount bigStake = 1"
  "val bigStake (Suc 0) = 18446744073709551616000000000000" "val bigStake 0 = 0"
  "self bigStake = 1" "token bigStake = testToken 0 (\<lambda>_. None) {}"
  by (simp_all add: bigStake_def dayLater_def testWorld_def deployed_def val_def isInitialized_def)

lemma unlinked_simps:
  "stakes unlinked 5 = \<lparr>ethStake = 1, musdtStake = 0, pendingRewards = 0, lastUpdated = 1000\<rparr>"
  "blockTime unlinked = 87401" "handleCount unlinked = 1"
  "val unlinked (Suc 0) = 1000000000000000000" "val unlinked 0 = 0"
  "self unlinked = 1"
  "token unlinked = \<lparr>controller = 3, stakingContract = 0, totalSupply = 0,
     balances = (\<lambda>_. None), operators = {}\<rparr>"
  by (simp_all add: unlinked_def dayLater_def testWorld_def deployed_def val_def isInitialized_def)

lemma fullSupply_simps:
  "stakes fullSupply 5 = \<lparr>ethStake = 1, musdtStake = 0, pendingRewards = 0, lastUpdated = 1000\<rparr>"
  "blockTime fullSupply = 87401" "handleCount fullSupply = 1"
  "val fullSupply (Suc 0) = 1000000000000000000" "val fullSupply 0 = 0"
  "self fullSupply = 1"
  "token fullSupply =
     testToken 18446744073709551615 ((\<lambda>_. None)(7 := Some 18446744073709551615)) {}"
  by (simp_all add: fullSupply_def dayLater_def testWorld_def deployed_def val_def isInitialized_def)

lemma dayLater_token: "self dayLater = 1" "token dayLater = testToken 0 (\<lambda>_. None) {}"
  by (simp_all add: dayLater_def testWorld_def deployed_def)

lemma testWorld_reachable: "reachable testWorld"
proof -
  have "reachable (deployed 1 2 3 1000)" by (rule reachable.deploy) simp
  then show ?thesis unfolding testWorld_def by (rule reachable.token_call)
qed

lemma dayLater_reachable: "reachable dayLater"
proof -
  from testWorld_reachable
  have "reachable (fst (transact (exec testEnv 5 (StakeEth 1000000000000000000)) testWorld))"
    by (rule reachable.ledger_call)
  then have r: "reachable (dayLater\<lparr>blockTime := 1000\<rparr>)"
    by (simp add: transact_def dayLater_is_reached)
  have "reachable (dayLater\<lparr>blockTime := 1000\<rparr>\<lparr>blockTime := 87401\<rparr>)"
    by (rule reachable.tick [OF r]) (simp add: word_le_nat_alt)
  moreover have "dayLater\<lparr>blockTime := 1000\<rparr>\<lparr>blockTime := 87401\<rparr> = dayLater"
    by (simp add: dayLater_def)
  ultimately show ?thesis by simp
qed

lemma bigStake_is_reached:
  "stakeEth 5 18446744073709551616000000000000 testWorld = Inr (bigStake\<lparr>blockTime := 1000\<rparr>)"
proof -
  have acc: "accrue 5 testWorld = Inr (update_info testWorld 5 (\<lambda>i. i\<lparr>lastUpdated := 1000\<rparr>))"
    by (simp add: accrue_alt Let_def testWorld_simps emptyStake_def)
  show ?thesis
    unfolding stakeEth_def acc
    by (simp add: Let_def case_prod_beta op_defs fresh_def update_info_def FHE_allow_def
        FHE_makePubliclyDecryptable_def bigStake_def dayLater_def testWorld_def deployed_def
        emptyStake_def fun_eq_iff insert_commute)
qed

lemma bigStake_reachable: "reachable bigStake"
proof -
  from testWorld_reachable
  have "reachable (fst (transact (exec testEnv 5 (StakeEth 18446744073709551616000000000000))
      testWorld))"
    by (rule reachable.ledger_call)
  then have r: "reachable (bigStake\<lparr>blockTime := 1000\<rparr>)"
    by (simp add: transact_def bigStake_is_reached)
  have "reachable (bigStake\<lparr>blockTime := 1000\<rparr>\<lparr>blockTime := 87401\<rparr>)"
    by (rule reachable.tick [OF r]) (simp add: word_le_nat_alt)
  moreover have "bigStake\<lparr>blockTime := 1000\<rparr>\<lparr>blockTime := 87401\<rparr> = bigStake"
    by (simp add: bigStake_def dayLater_def)
  ultimately show ?thesis by simp
qed

lemma unlinked_reachable: "reachable unlinked"
  unfolding unlinked_def using dayLater_reachable by (rule reachable.token_call)

lemma fullSupply_reachable: "reachable fullSupply"
  unfolding fullSupply_def using dayLater_reachable by (rule reachable.token_call)

lemma fundedWorld_reachable: "reachable fundedWorld"
  unfolding fundedWorld_def using testWorld_reachable by (rule reachable.token_call)

lemma millionWorld_reachable: "reachable millionWorld"
  unfolding millionWorld_def using testWorld_reachable by (rule reachable.token_call)

lemma accrue_run_value:
  assumes "lastUpdated (stakes w u) \<noteq> 0" "lastUpdated (stakes w u) \<le> blockTime w"
    "1 < blockTime w - lastUpdated (stakes w u)" "handles_ok w u"
  shows "\<exists>w1. accrue u w = Inr w1 \<and>
     ethStake (stakes w1 u) = ethStake (stakes w u) \<and>
     musdtStake (stakes w1 u) = musdtStake (stakes w u) \<and>
     val w1 (ethStake (stakes w1 u)) = val w (ethStake (stakes w u)) \<and>
     val w1 (musdtStake (stakes w1 u)) = val w (musdtStake (stakes w u)) \<and>
     isInitialized (pendingRewards (stakes w1 u)) \<and>
     val w1 (pendingRewards (stakes w1 u)) =
       val w (pendingRewards (stakes w u)) +
       interest_spec (val w (ethStake (stakes w u))) (val w (musdtStake (stakes w u)))
         (ucast (blockTime w - lastUpdated (stakes w u) - 1))"
proof -
  let ?d = "blockTime w - lastUpdated (stakes w u)"
  from assms(2) obtain w1 where acc: "accrue u w = Inr w1" using accrue_succeeds by blast
  have hs: "ethStake (stakes w u) \<le> handleCount w" "musdtStake (stakes w u) \<le> handleCount w"
    "pendingRewards (stakes w u) \<le> handleCount w"
    using assms(4) by (simp_all add: handles_ok_def)
  from acc have w1: "w1 = accrued w u (?d - 1)"
  proof (cases rule: accrue_cases)
    case boot with assms(1) show ?thesis by simp
  next
    case idle with assms(3) show ?thesis by (simp add: not_less [symmetric])
  next
    case run then show ?thesis by simp
  qed
  have st: "ethStake (stakes w1 u) = ethStake (stakes w u)"
    "musdtStake (stakes w1 u) = musdtStake (stakes w u)"
    using acc by (rule accrue_stakes_kept)+
  have p1: "pendingRewards (stakes w1 u) = handleCount w1"
    unfolding w1 by (simp add: accrue_tail_stakes)
  have cnt: "handleCount w1 \<noteq> 0"
    unfolding w1 by (simp add: accrue_tail_count)
  have init: "isInitialized (pendingRewards (stakes w1 u))"
    using cnt by (simp add: p1 isInitialized_def)
  have v: "val w1 (pendingRewards (stakes w1 u)) =
      val w (pendingRewards (stakes w u)) +
      interest_spec (val w (ethStake (stakes w u))) (val w (musdtStake (stakes w u)))
        (ucast (?d - 1))"
    unfolding p1 unfolding w1 by (rule accrue_tail_val [OF hs(2) hs(3)])
  have old: "val w1 (ethStake (stakes w1 u)) = val w (ethStake (stakes w u))"
    "val w1 (musdtStake (stakes w1 u)) = val w (musdtStake (stakes w u))"
    unfolding st using acc hs by (simp_all add: accrue_val_old)
  from acc st old init v show ?thesis by blast
qed

lemma three_seconds: "(1 :: 64 word) < 3"
  by (simp add: word_less_nat_alt)



lemma stakeMusdt_transact_succeeds:
  assumes "lastUpdated (stakes w s) \<le> blockTime w" "fromExternal ev enc pf = Some amount"
    "confidentialTransferFrom ev (token w) (self w) s (self w) amount = Inr (tk, moved)"
  shows "snd (transact (stakeMusdt ev s enc pf) w) = None"
proof -
  from assms(1) obtain w1 where acc: "accrue s w = Inr w1" using accrue_succeeds by blast
  have fr: "token w1 = token w" "self w1 = self w" using acc by (rule accrue_frame)+
  from stakeMusdt_succeeds [OF acc assms(2), of tk moved] assms(3) fr
  obtain w' where "stakeMusdt ev s enc pf w = Inr w'" by auto
  then show ?thesis by (simp add: transact_def)
qed

lemma zero_transfer_funded:
  "confidentialTransferFrom testEnv (token fundedWorld) (self fundedWorld) 5 (self fundedWorld) 0 =
     Inr (testToken 100 ((\<lambda>_. None)(5 := Some 100, 1 := Some 0)) {(5, 1)}, 0)"
  by (simp add: testEnv_def erc7984_transferFrom_def fundedWorld_simps testToken_def
      balance_of_def Let_def)

lemma mint_internal_exact:
  assumes "unat (totalSupply tk) + unat amount < 2 ^ 64" "balance_of tk a \<le> totalSupply tk"
  shows "unat (balance_of (fst (mint_internal tk a amount)) a) = unat (balance_of tk a) + unat amount"
proof -
  have s: "totalSupply tk \<le> totalSupply tk + amount"
    using assms(1) by (simp add: no_olen_add_nat)
  have "unat (balance_of tk a) \<le> unat (totalSupply tk)"
    using assms(2) by (simp add: word_le_nat_alt)
  with assms(1) have "unat (balance_of tk a) + unat amount < 2 ^ 64" by linarith
  then have "unat (balance_of tk a + amount) = unat (balance_of tk a) + unat amount"
    by (intro unat_add_lem [THEN iffD1]) simp
  with s show ?thesis by (simp add: mint_internal_def Let_def balance_of_def)
qed

lemma day_accrual:
  assumes "stakes w 5 = \<lparr>ethStake = 1, musdtStake = 0, pendingRewards = 0, lastUpdated = 1000\<rparr>"
    "blockTime w = 87401" "handleCount w = 1" "val w (Suc 0) = x"
  shows "accrue 5 w = Inr (accrued w 5 86400)"
    "pendingRewards (stakes (accrued w 5 86400) 5) = 7"
    "val (accrued w 5 86400) 7 = interest_spec x 0 86400"
    "token (accrued w 5 86400) = token w" "self (accrued w 5 86400) = self w"
proof -
  show "accrue 5 w = Inr (accrued w 5 86400)"
    by (simp add: accrue_alt Let_def assms)
  have c: "handleCount (accrued w 5 86400) = 7"
    using accrue_tail_count [where w = w and u = 5 and e = 86400] by (simp add: assms)
  show "pendingRewards (stakes (accrued w 5 86400) 5) = 7"
    using c by (simp add: accrue_tail_stakes)
  show "val (accrued w 5 86400) 7 = interest_spec x 0 86400"
    using accrue_tail_val [where w = w and u = 5 and e = 86400] c
    by (simp add: assms fhe_simps)
  show "token (accrued w 5 86400) = token w" "self (accrued w 5 86400) = self w"
    by (simp_all add: accrue_tail_sel)
qed

lemma pending_after_day:
  assumes "stakes w 5 = \<lparr>ethStake = 1, musdtStake = 0, pendingRewards = 0, lastUpdated = 1000\<rparr>"
    "blockTime w = 87401" "handleCount w = 1" "val w (Suc 0) = x"
  shows "pendingAfterAccrual 5 w = Some (interest_spec x 0 86400)"
  using day_accrual [OF assms] by (simp add: pendingAfterAccrual_def isInitialized_def)

section \<open>The claims\<close>

text \<open>
  C3, as amended. The accrual routine is this function of the position and the block
  time: when \<open>lastUpdated\<close> is 0 it only sets \<open>lastUpdated\<close> to the block time and
  changes no balance; otherwise, with \<open>elapsed = now - lastUpdated\<close>, it changes nothing
  when \<open>elapsed \<le> 1\<close>, and when \<open>elapsed > 1\<close> it keeps both stakes and makes
  \<open>pendingRewards\<close> an initialized value holding, modulo \<open>2^128\<close>, the old value (zero
  when it was uninitialized) plus
  \<open>((ethStake * (elapsed - 1)) mod 2^128) div 86400 div 10^12 +
  ((musdtStake * (elapsed - 1)) mod 2^128) div (86400 * 100)\<close>, the divisions rounding
  down. Whenever the two products and the new total are below \<open>2^128\<close>, this is the old
  value plus \<open>(ethStake * (elapsed - 1)) div 86400 div 10^12 +
  (musdtStake * (elapsed - 1)) div (86400 * 100)\<close>. The two hypotheses hold in every
  reachable state.
\<close>

theorem accrue_exact:
  assumes "lastUpdated (stakes w u) \<le> blockTime w" and "handles_ok w u"
  shows "\<exists>w1. accrue u w = Inr w1 \<and>
     (lastUpdated (stakes w u) = 0 \<longrightarrow>
        w1 = update_info w u (\<lambda>i. i\<lparr>lastUpdated := blockTime w\<rparr>)) \<and>
     (lastUpdated (stakes w u) \<noteq> 0 \<and> blockTime w - lastUpdated (stakes w u) \<le> 1 \<longrightarrow> w1 = w) \<and>
     (lastUpdated (stakes w u) \<noteq> 0 \<and> 1 < blockTime w - lastUpdated (stakes w u) \<longrightarrow>
        ethStake (stakes w1 u) = ethStake (stakes w u) \<and>
        musdtStake (stakes w1 u) = musdtStake (stakes w u) \<and>
        val w1 (ethStake (stakes w1 u)) = val w (ethStake (stakes w u)) \<and>
        val w1 (musdtStake (stakes w1 u)) = val w (musdtStake (stakes w u)) \<and>
        isInitialized (pendingRewards (stakes w1 u)) \<and>
        unat (val w1 (pendingRewards (stakes w1 u))) =
          (unat (val w (pendingRewards (stakes w u))) +
           interest_wrapped (unat (val w (ethStake (stakes w u))))
             (unat (val w (musdtStake (stakes w u))))
             (unat (blockTime w - lastUpdated (stakes w u)) - 1)) mod 2 ^ 128 \<and>
        (unat (val w (ethStake (stakes w u))) * (unat (blockTime w - lastUpdated (stakes w u)) - 1)
           < 2 ^ 128 \<and>
         unat (val w (musdtStake (stakes w u))) * (unat (blockTime w - lastUpdated (stakes w u)) - 1)
           < 2 ^ 128 \<and>
         unat (val w (pendingRewards (stakes w u))) +
           interest_nat (unat (val w (ethStake (stakes w u)))) (unat (val w (musdtStake (stakes w u))))
             (unat (blockTime w - lastUpdated (stakes w u)) - 1) < 2 ^ 128 \<longrightarrow>
         unat (val w1 (pendingRewards (stakes w1 u))) =
           unat (val w (pendingRewards (stakes w u))) +
           interest_nat (unat (val w (ethStake (stakes w u)))) (unat (val w (musdtStake (stakes w u))))
             (unat (blockTime w - lastUpdated (stakes w u)) - 1)))"
proof -
  from assms(1) obtain w1 where acc: "accrue u w = Inr w1"
    using accrue_succeeds by blast
  let ?d = "blockTime w - lastUpdated (stakes w u)"
  let ?eth = "val w (ethStake (stakes w u))"
  let ?m = "val w (musdtStake (stakes w u))"
  let ?p = "val w (pendingRewards (stakes w u))"
  from acc show ?thesis
  proof (cases rule: accrue_cases)
    case boot
    with acc show ?thesis by simp
  next
    case idle
    have "\<not> 1 < ?d" using idle(3) by (simp add: not_less)
    with idle acc show ?thesis by simp
  next
    case run
    have d0: "?d \<noteq> 0" using run(3) by auto
    have e: "unat (ucast (?d - 1) :: 128 word) = unat ?d - 1"
      unfolding unat_ucast_64_128 by (rule unat_minus_one [OF d0])
    from accrue_run_value [OF run(1) run(2) run(3) assms(2)] acc
    have st: "ethStake (stakes w1 u) = ethStake (stakes w u)"
      "musdtStake (stakes w1 u) = musdtStake (stakes w u)"
      and old: "val w1 (ethStake (stakes w1 u)) = ?eth" "val w1 (musdtStake (stakes w1 u)) = ?m"
      and init: "isInitialized (pendingRewards (stakes w1 u))"
      and v: "val w1 (pendingRewards (stakes w1 u)) = ?p + interest_spec ?eth ?m (ucast (?d - 1))"
      by auto
    have wr: "unat (val w1 (pendingRewards (stakes w1 u))) =
        (unat ?p + interest_wrapped (unat ?eth) (unat ?m) (unat ?d - 1)) mod 2 ^ 128"
      unfolding v by (simp add: unat_word_ariths interest_spec_wrapped e)
    have nat: "unat (val w1 (pendingRewards (stakes w1 u))) =
           unat ?p + interest_nat (unat ?eth) (unat ?m) (unat ?d - 1)"
      if a: "unat ?eth * (unat ?d - 1) < 2 ^ 128" and b: "unat ?m * (unat ?d - 1) < 2 ^ 128"
        and c: "unat ?p + interest_nat (unat ?eth) (unat ?m) (unat ?d - 1) < 2 ^ 128"
    proof -
      have i: "unat (interest_spec ?eth ?m (ucast (?d - 1))) =
          interest_nat (unat ?eth) (unat ?m) (unat ?d - 1)"
        using interest_spec_nat [of ?eth "ucast (?d - 1)" ?m] a b unfolding e by simp
      have "unat (?p + interest_spec ?eth ?m (ucast (?d - 1))) =
          unat ?p + unat (interest_spec ?eth ?m (ucast (?d - 1)))"
        using c unfolding i [symmetric] by (intro unat_add_lem [THEN iffD1]) simp
      then show ?thesis unfolding v i .
    qed
    from run(1) run(3) st old init wr nat acc show ?thesis by (simp add: not_le)
  qed
qed

theorem accrue_exact_witness:
  "lastUpdated (stakes dayLater 5) \<le> blockTime dayLater \<and> handles_ok dayLater 5 \<and>
   lastUpdated (stakes dayLater 5) \<noteq> 0 \<and> 1 < blockTime dayLater - lastUpdated (stakes dayLater 5) \<and>
   (\<exists>w1. accrue 5 dayLater = Inr w1 \<and> unat (val w1 (pendingRewards (stakes w1 5))) = 1000000)"
proof -
  have h: "lastUpdated (stakes dayLater 5) \<le> blockTime dayLater" "handles_ok dayLater 5"
    by (simp_all add: dayLater_simps handles_ok_def)
  show ?thesis
    using accrue_exact [OF h] h
    by (simp add: dayLater_simps interest_wrapped_def interest_nat_def) blast
qed

text \<open>
  C3 fails as stated: address 5 stakes \<open>2^127\<close> base units of asset-1 in the test
  deployment and syncs three seconds later. The product \<open>2^127 * 2\<close> wraps to zero in the
  128-bit ciphertext, so the sync returns pending rewards of 0, where the formula of the
  claim gives 3938453320844195178974.
\<close>

theorem accrual_wraps:
  "reachable testWorld \<and>
   stakeEth_then_sync testWorld 5 170141183460469231731687303715884105728 3 = Inr 0 \<and>
   interest_nat 170141183460469231731687303715884105728 0 2 = 3938453320844195178974"
proof -
  have h: "stakes testWorld 5 = emptyStake" "blockTime testWorld \<noteq> 0"
    "blockTime testWorld \<le> blockTime testWorld + 3"
    by (simp_all add: testWorld_simps word_le_nat_alt)
  have v: "(170141183460469231731687303715884105728 :: 256 word) \<noteq> 0"
    "(170141183460469231731687303715884105728 :: 256 word) \<le> 2 ^ 128 - 1"
    by (simp_all add: word_le_nat_alt)
  from stakeEth_then_sync_fresh [OF h three_seconds v] testWorld_reachable
  show ?thesis by (simp add: interest_spec_def interest_nat_def)
qed




text \<open>
  C6, as amended. A deposit of asset-1 (\<open>stakeEth\<close>) with a zero amount, or with an
  amount above \<open>2^128 - 1\<close>, is rejected with \<open>InvalidAmount\<close> and no state changes. A
  deposit of asset-2 (\<open>stakeMusdt\<close>) checks no amount: whenever the input proof verifies
  and the token's transfer does not revert, it succeeds for every encrypted 64-bit amount,
  zero included.
\<close>

theorem deposit_amount_checks:
  "(msg_value = 0 \<or> msg_value > 2 ^ 128 - 1 \<longrightarrow>
      transact (stakeEth s msg_value) w = (w, Some InvalidAmount)) \<and>
   (lastUpdated (stakes w s) \<le> blockTime w \<and> fromExternal ev enc pf = Some amount \<and>
    confidentialTransferFrom ev (token w) (self w) s (self w) amount = Inr (tk, moved) \<longrightarrow>
      snd (transact (stakeMusdt ev s enc pf) w) = None)"
proof (intro conjI impI)
  assume "msg_value = 0 \<or> msg_value > 2 ^ 128 - 1"
  then show "transact (stakeEth s msg_value) w = (w, Some InvalidAmount)"
    by (simp add: transact_def stakeEth_rejected)
next
  assume "lastUpdated (stakes w s) \<le> blockTime w \<and> fromExternal ev enc pf = Some amount \<and>
    confidentialTransferFrom ev (token w) (self w) s (self w) amount = Inr (tk, moved)"
  then show "snd (transact (stakeMusdt ev s enc pf) w) = None"
    using stakeMusdt_transact_succeeds by blast
qed

theorem deposit_amount_checks_witness:
  "transact (stakeEth 5 0) fundedWorld = (fundedWorld, Some InvalidAmount) \<and>
   lastUpdated (stakes fundedWorld 5) \<le> blockTime fundedWorld \<and>
   fromExternal testEnv 0 [1] = Some 0 \<and>
   confidentialTransferFrom testEnv (token fundedWorld) (self fundedWorld) 5 (self fundedWorld) 0 =
     Inr (testToken 100 ((\<lambda>_. None)(5 := Some 100, 1 := Some 0)) {(5, 1)}, 0) \<and>
   snd (transact (stakeMusdt testEnv 5 0 [1]) fundedWorld) = None"
proof -
  have h: "lastUpdated (stakes fundedWorld 5) \<le> blockTime fundedWorld"
    "fromExternal testEnv 0 [1] = Some 0"
    by (simp_all add: fundedWorld_simps emptyStake_def testEnv_def)
  from deposit_amount_checks [of 0 5 fundedWorld testEnv 0 "[1]" 0
      "testToken 100 ((\<lambda>_. None)(5 := Some 100, 1 := Some 0)) {(5, 1)}" 0]
    h zero_transfer_funded
  show ?thesis by simp
qed

text \<open>
  C6 fails for asset-2: address 5 holds 100 units of the token and has approved the
  ledger; its deposit of an encrypted zero with a valid input proof is not rejected: the
  call goes through and changes the state.
\<close>

theorem stakeMusdt_accepts_zero:
  "reachable fundedWorld \<and> fromExternal testEnv 0 [1] = Some 0 \<and>
   snd (transact (stakeMusdt testEnv 5 0 [1]) fundedWorld) = None \<and>
   fst (transact (stakeMusdt testEnv 5 0 [1]) fundedWorld) \<noteq> fundedWorld"
proof -
  have h: "lastUpdated (stakes fundedWorld 5) \<le> blockTime fundedWorld"
    "fromExternal testEnv 0 [1] = Some 0"
    by (simp_all add: fundedWorld_simps emptyStake_def testEnv_def)
  from stakeMusdt_transact_succeeds [OF h zero_transfer_funded]
  obtain w' where w': "stakeMusdt testEnv 5 0 [1] fundedWorld = Inr w'"
    by (cases "stakeMusdt testEnv 5 0 [1] fundedWorld") (simp_all add: transact_def)
  from stakeMusdt_effect [OF w'] have "handleCount w' \<noteq> 0" by auto
  then have "w' \<noteq> fundedWorld" using fundedWorld_simps(3) by auto
  with w' h fundedWorld_reachable show ?thesis by (simp add: transact_def)
qed

text \<open>
  C1, as amended. Let the accrual of the call succeed. If \<open>pendingRewards\<close> is then
  initialized, the ledger is an authorised minter of the reward token, the pending value
  is below \<open>2^64\<close>, and minting it keeps the token's total supply, which bounds the
  caller's balance, within 64 bits, then \<open>claimRewards\<close> succeeds, leaves
  \<open>pendingRewards\<close> an initialized encryption of zero, and the caller's reward balance
  grows by exactly the pending value. If \<open>pendingRewards\<close> is uninitialized after the
  accrual, the call fails with \<open>NoRewardsAvailable\<close>.
\<close>

theorem claimRewards_resets_and_mints:
  assumes "accrue s w = Inr w1"
  shows "(isInitialized (pendingRewards (stakes w1 s)) \<and> onlyMinter (token w) (self w) \<and>
          val w1 (pendingRewards (stakes w1 s)) < 2 ^ 64 \<and>
          unat (totalSupply (token w)) + unat (val w1 (pendingRewards (stakes w1 s))) < 2 ^ 64 \<and>
          balance_of (token w) s \<le> totalSupply (token w) \<longrightarrow>
            (\<exists>w'. claimRewards s w = Inr w' \<and>
               isInitialized (pendingRewards (stakes w' s)) \<and>
               val w' (pendingRewards (stakes w' s)) = 0 \<and>
               rewardBalance w' s =
                 rewardBalance w s + unat (val w1 (pendingRewards (stakes w1 s))))) \<and>
         (\<not> isInitialized (pendingRewards (stakes w1 s)) \<longrightarrow>
            claimRewards s w = Inl NoRewardsAvailable)"
proof (intro conjI impI)
  let ?p = "val w1 (pendingRewards (stakes w1 s))"
  assume a: "isInitialized (pendingRewards (stakes w1 s)) \<and> onlyMinter (token w) (self w) \<and>
          ?p < 2 ^ 64 \<and> unat (totalSupply (token w)) + unat ?p < 2 ^ 64 \<and>
          balance_of (token w) s \<le> totalSupply (token w)"
  have fr: "token w1 = token w" "self w1 = self w" using assms by (rule accrue_frame)+
  from a fr assms obtain w' where w': "claimRewards s w = Inr w'"
    using claimRewards_succeeds [of s w w1] by auto
  from claimRewards_effect [OF w'] assms
  have tk: "token w' = fst (mint_internal (token w1) s (ucast ?p))"
    and st: "pendingRewards (stakes w' s) = handleCount w'"
    and pos: "0 < handleCount w'" and z: "val w' (handleCount w') = 0"
    by auto
  have u: "unat (ucast ?p :: 64 word) = unat ?p"
    using a by (simp add: unat_ucast_128_64)
  have "rewardBalance w' s = rewardBalance w s + unat ?p"
    unfolding rewardBalance_def tk fr
    using mint_internal_exact [of "token w" "ucast ?p" s] a unfolding u by simp
  then show "\<exists>w'. claimRewards s w = Inr w' \<and>
               isInitialized (pendingRewards (stakes w' s)) \<and>
               val w' (pendingRewards (stakes w' s)) = 0 \<and>
               rewardBalance w' s = rewardBalance w s + unat ?p"
    using w' st pos z by (auto simp add: isInitialized_def)
next
  assume "\<not> isInitialized (pendingRewards (stakes w1 s))"
  with assms show "claimRewards s w = Inl NoRewardsAvailable"
    by (rule claimRewards_without_rewards)
qed

theorem claimRewards_resets_and_mints_witness:
  "accrue 5 dayLater = Inr (accrued dayLater 5 86400) \<and>
   isInitialized (pendingRewards (stakes (accrued dayLater 5 86400) 5)) \<and>
   onlyMinter (token dayLater) (self dayLater) \<and>
   val (accrued dayLater 5 86400) (pendingRewards (stakes (accrued dayLater 5 86400) 5)) = 1000000 \<and>
   totalSupply (token dayLater) = 0 \<and> balance_of (token dayLater) 5 = 0 \<and>
   (\<exists>w'. claimRewards 5 dayLater = Inr w' \<and> val w' (pendingRewards (stakes w' 5)) = 0 \<and>
      rewardBalance w' 5 = 1000000)"
proof -
  note d = day_accrual [OF dayLater_simps(1-4)]
  have v: "val (accrued dayLater 5 86400) 7 = 1000000"
    using d(3) by (simp add: interest_spec_def)
  have m: "onlyMinter (token dayLater) (self dayLater)" "totalSupply (token dayLater) = 0"
    "balance_of (token dayLater) 5 = 0" "rewardBalance dayLater 5 = 0"
    by (simp_all add: onlyMinter_def dayLater_token testToken_simps balance_of_def
        rewardBalance_def)
  from claimRewards_resets_and_mints [OF d(1)] d(1) d(2) v m show ?thesis
    by (simp add: isInitialized_def) blast
qed

text \<open>
  C1 fails as stated, at three states that calls produce from the deployment. After a
  stake of \<open>2^64 * 10^12\<close> base units the accrual of the claim leaves \<open>2^64\<close> pending:
  the claim succeeds, but the amount handed to the minter is the low 64 bits, which is
  zero, and the caller's balance does not move. Where the token has not been told of the
  ledger, the claim of 1,000,000 pending fails with \<open>Unauthorized\<close>. Where the token's
  total supply is \<open>2^64 - 1\<close>, the claim of 1,000,000 pending succeeds and the token adds
  nothing.
\<close>

theorem claimRewards_not_exact:
  "reachable bigStake \<and> pendingAfterAccrual 5 bigStake = Some 18446744073709551616 \<and>
   snd (transact (claimRewards 5) bigStake) = None \<and>
   rewardBalance (fst (transact (claimRewards 5) bigStake)) 5 = rewardBalance bigStake 5 \<and>
   reachable unlinked \<and> pendingAfterAccrual 5 unlinked = Some 1000000 \<and>
   transact (claimRewards 5) unlinked = (unlinked, Some Unauthorized) \<and>
   reachable fullSupply \<and> pendingAfterAccrual 5 fullSupply = Some 1000000 \<and>
   snd (transact (claimRewards 5) fullSupply) = None \<and>
   rewardBalance (fst (transact (claimRewards 5) fullSupply)) 5 = rewardBalance fullSupply 5"
proof -
  have ini: "isInitialized 7" by (simp add: isInitialized_def)
  \<comment> \<open>the truncation\<close>
  note b = day_accrual [OF bigStake_simps(1-4)]
  have bp: "pendingAfterAccrual 5 bigStake = Some 18446744073709551616"
    using pending_after_day [OF bigStake_simps(1-4)] by (simp add: interest_spec_def)
  have bv: "val (accrued bigStake 5 86400) 7 = 18446744073709551616"
    using b(3) by (simp add: interest_spec_def)
  have bm: "onlyMinter (token (accrued bigStake 5 86400)) (self (accrued bigStake 5 86400))"
    unfolding b(4) b(5) by (simp add: bigStake_simps(6,7) onlyMinter_def testToken_simps)
  from claimRewards_succeeds [OF b(1) _ bm] ini b(2)
  obtain wb where wb: "claimRewards 5 bigStake = Inr wb" by auto
  from claimRewards_effect [OF wb] b(1)
  have "token wb = fst (mint_internal (token bigStake) 5 (ucast (18446744073709551616 :: 128 word)))"
    by (auto simp add: b(2) b(4) bv)
  then have bb: "rewardBalance wb 5 = rewardBalance bigStake 5"
    by (simp add: bigStake_simps(7) rewardBalance_def mint_internal_def Let_def balance_of_def
        testToken_simps)
  \<comment> \<open>the ledger is not a minter\<close>
  note u = day_accrual [OF unlinked_simps(1-4)]
  have up: "pendingAfterAccrual 5 unlinked = Some 1000000"
    using pending_after_day [OF unlinked_simps(1-4)] by (simp add: interest_spec_def)
  have um: "\<not> onlyMinter (token (accrued unlinked 5 86400)) (self (accrued unlinked 5 86400))"
    unfolding u(4) u(5) by (simp add: unlinked_simps(6,7) onlyMinter_def)
  from claimRewards_unauthorised [OF u(1) _ um] ini u(2)
  have uf: "claimRewards 5 unlinked = Inl Unauthorized" by auto
  \<comment> \<open>the total supply is full\<close>
  note f = day_accrual [OF fullSupply_simps(1-4)]
  have fp: "pendingAfterAccrual 5 fullSupply = Some 1000000"
    using pending_after_day [OF fullSupply_simps(1-4)] by (simp add: interest_spec_def)
  have fv: "val (accrued fullSupply 5 86400) 7 = 1000000"
    using f(3) by (simp add: interest_spec_def)
  have fm: "onlyMinter (token (accrued fullSupply 5 86400)) (self (accrued fullSupply 5 86400))"
    unfolding f(4) f(5) by (simp add: fullSupply_simps(6,7) onlyMinter_def testToken_simps)
  from claimRewards_succeeds [OF f(1) _ fm] ini f(2)
  obtain wf where wf: "claimRewards 5 fullSupply = Inr wf" by auto
  from claimRewards_effect [OF wf] f(1)
  have "token wf = fst (mint_internal (token fullSupply) 5 (ucast (1000000 :: 128 word)))"
    by (auto simp add: f(2) f(4) fv)
  then have fb: "rewardBalance wf 5 = rewardBalance fullSupply 5"
    by (simp add: fullSupply_simps(7) rewardBalance_def mint_internal_def Let_def balance_of_def
        testToken_simps)
  from bp wb bb up uf fp wf fb bigStake_reachable unlinked_reachable fullSupply_reachable
  show ?thesis by (simp add: transact_def)
qed

text \<open>
  C2, as amended. For a position whose only activity is a single stake, a sync 86,401
  seconds after the stake (one full day after the second that the accrual excludes)
  returns the full nominal daily interest: exactly 1,000,000 reward base units for a
  stake of \<open>10^18\<close> base units of asset-1, and exactly 10,000 for 1,000,000 base units of
  asset-2.
\<close>

theorem full_day_interest:
  assumes "stakes w u = emptyStake" and "blockTime w \<noteq> 0"
    and "blockTime w \<le> blockTime w + 86401"
  shows "stakeEth_then_sync w u 1000000000000000000 86401 = Inr 1000000 \<and>
     (fromExternal ev enc pf = Some amount \<and>
      confidentialTransferFrom ev (token w) (self w) u (self w) amount = Inr (tk, 1000000) \<longrightarrow>
        stakeMusdt_then_sync ev w u enc pf 86401 = Inr 10000)"
proof -
  have v: "(1000000000000000000 :: 256 word) \<noteq> 0" "(1000000000000000000 :: 256 word) \<le> 2 ^ 128 - 1"
    by (simp_all add: word_le_nat_alt)
  from stakeEth_then_sync_fresh [OF assms one_less_day(1) v]
    stakeMusdt_then_sync_fresh [OF assms one_less_day(1), of ev enc pf amount tk 1000000]
  show ?thesis by (simp add: interest_spec_def)
qed

theorem full_day_interest_witness:
  "stakes millionWorld 5 = emptyStake \<and> blockTime millionWorld \<noteq> 0 \<and>
   blockTime millionWorld \<le> blockTime millionWorld + 86401 \<and>
   fromExternal testEnv 1000000 [1] = Some 1000000 \<and>
   confidentialTransferFrom testEnv (token millionWorld) (self millionWorld) 5 (self millionWorld)
     1000000 = Inr (testToken 1000000 ((\<lambda>_. None)(5 := Some 0, 1 := Some 1000000)) {(5, 1)},
                    1000000) \<and>
   stakeEth_then_sync millionWorld 5 1000000000000000000 86401 = Inr 1000000 \<and>
   stakeMusdt_then_sync testEnv millionWorld 5 1000000 [1] 86401 = Inr 10000"
proof -
  have h: "stakes millionWorld 5 = emptyStake" "blockTime millionWorld \<noteq> 0"
    "blockTime millionWorld \<le> blockTime millionWorld + 86401"
    by (simp_all add: millionWorld_simps word_le_nat_alt)
  have e: "fromExternal testEnv 1000000 [1] = Some 1000000"
    "confidentialTransferFrom testEnv (token millionWorld) (self millionWorld) 5
       (self millionWorld) 1000000 =
         Inr (testToken 1000000 ((\<lambda>_. None)(5 := Some 0, 1 := Some 1000000)) {(5, 1)}, 1000000)"
    by (simp_all add: testEnv_def erc7984_transferFrom_def millionWorld_simps testToken_def
        balance_of_def Let_def)
  from full_day_interest [OF h, of testEnv 1000000 "[1]" 1000000 _] h e show ?thesis
    by simp
qed

text \<open>
  C2 fails as stated: with exactly 86,400 seconds between the stake and the sync, the
  accrual counts 86,399 seconds and the pending rewards are 999,988 for asset-1 and 9,999
  for asset-2.
\<close>

theorem exact_day_falls_short:
  "stakeEth_then_sync millionWorld 5 1000000000000000000 86400 = Inr 999988 \<and>
   stakeMusdt_then_sync testEnv millionWorld 5 1000000 [1] 86400 = Inr 9999"
proof -
  have h: "stakes millionWorld 5 = emptyStake" "blockTime millionWorld \<noteq> 0"
    "blockTime millionWorld \<le> blockTime millionWorld + 86400"
    by (simp_all add: millionWorld_simps word_le_nat_alt)
  have v: "(1000000000000000000 :: 256 word) \<noteq> 0" "(1000000000000000000 :: 256 word) \<le> 2 ^ 128 - 1"
    by (simp_all add: word_le_nat_alt)
  have e: "fromExternal testEnv 1000000 [1] = Some 1000000"
    "confidentialTransferFrom testEnv (token millionWorld) (self millionWorld) 5
       (self millionWorld) 1000000 =
         Inr (testToken 1000000 ((\<lambda>_. None)(5 := Some 0, 1 := Some 1000000)) {(5, 1)}, 1000000)"
    by (simp_all add: testEnv_def erc7984_transferFrom_def millionWorld_simps testToken_def
        balance_of_def Let_def)
  from stakeEth_then_sync_fresh [OF h one_less_day(2) v]
    stakeMusdt_then_sync_fresh [OF h one_less_day(2) e]
  show ?thesis by (simp add: interest_spec_def)
qed

text \<open>
  C5. Every mutating call is atomic: a call that fails leaves the whole state, and with it
  the caller's position and every permission grant, as it was. In particular
  \<open>withdrawEth\<close> of more than the stake the proof attests fails with \<open>InvalidAmount\<close>,
  and \<open>withdrawEth\<close> whose value transfer does not complete fails with
  \<open>TransferFailed\<close>.
\<close>

theorem failed_call_changes_nothing:
  "(snd (transact (exec ev s c) w) = Some e \<longrightarrow> fst (transact (exec ev s c) w) = w) \<and>
   (lastUpdated (stakes w s) \<le> blockTime w \<and>
    checkSignatures ev [ethStake (stakes w s)] clear pf \<and>
    abi_decode_uint256 clear = Some d \<and> d < ucast amount \<longrightarrow>
      transact (exec ev s (WithdrawEth amount clear pf)) w = (w, Some InvalidAmount)) \<and>
   (lastUpdated (stakes w s) \<le> blockTime w \<and> amount \<noteq> 0 \<and>
    isInitialized (ethStake (stakes w s)) \<and>
    checkSignatures ev [ethStake (stakes w s)] clear pf \<and>
    abi_decode_uint256 clear = Some d \<and> ucast amount \<le> d \<and> \<not> sendValue ev s amount \<longrightarrow>
      transact (exec ev s (WithdrawEth amount clear pf)) w = (w, Some TransferFailed))"
proof (intro conjI impI)
  assume "snd (transact (exec ev s c) w) = Some e"
  then show "fst (transact (exec ev s c) w) = w"
    by (rule transact_failure_keeps_state)
next
  assume "lastUpdated (stakes w s) \<le> blockTime w \<and>
    checkSignatures ev [ethStake (stakes w s)] clear pf \<and>
    abi_decode_uint256 clear = Some d \<and> d < ucast amount"
  then show "transact (exec ev s (WithdrawEth amount clear pf)) w = (w, Some InvalidAmount)"
    by (simp add: transact_def withdrawEth_above_attested)
next
  assume "lastUpdated (stakes w s) \<le> blockTime w \<and> amount \<noteq> 0 \<and>
    isInitialized (ethStake (stakes w s)) \<and>
    checkSignatures ev [ethStake (stakes w s)] clear pf \<and>
    abi_decode_uint256 clear = Some d \<and> ucast amount \<le> d \<and> \<not> sendValue ev s amount"
  then show "transact (exec ev s (WithdrawEth amount clear pf)) w = (w, Some TransferFailed)"
    by (simp add: transact_def withdrawEth_transfer_fails)
qed

theorem failed_call_changes_nothing_witness:
  "transact (exec testEnv 5 (WithdrawEth 6 clearFive [])) dayLater = (dayLater, Some InvalidAmount) \<and>
   transact (exec (testEnv\<lparr>sendValue := (\<lambda>a v. False)\<rparr>) 5 (WithdrawEth 3 clearFive [])) dayLater
     = (dayLater, Some TransferFailed)"
proof -
  have a: "transact (exec testEnv 5 (WithdrawEth 6 clearFive [])) dayLater
      = (dayLater, Some InvalidAmount)"
    using failed_call_changes_nothing [of testEnv 5 "WithdrawEth 6 clearFive []" dayLater
        InvalidAmount clearFive "[]" 5 6]
    by (simp add: dayLater_simps clearFive_decodes testEnv_def)
  have b: "transact (exec (testEnv\<lparr>sendValue := (\<lambda>a v. False)\<rparr>) 5 (WithdrawEth 3 clearFive []))
      dayLater = (dayLater, Some TransferFailed)"
    using failed_call_changes_nothing [of "testEnv\<lparr>sendValue := (\<lambda>a v. False)\<rparr>" 5
        "WithdrawEth 3 clearFive []" dayLater TransferFailed clearFive "[]" 5 3]
    by (simp add: dayLater_simps clearFive_decodes testEnv_def isInitialized_def)
  from a b show ?thesis by simp
qed

text \<open>
  C7. Whenever a successful mutating call leaves a different handle in one of the three
  encrypted fields of a position, then right after the call the ledger and the owner of
  the position hold decrypt grants on that handle and it is publicly decryptable.
\<close>

theorem written_values_are_shared:
  assumes "exec ev s c w = Inr w'"
  shows "(ethStake (stakes w' v) \<noteq> ethStake (stakes w v) \<longrightarrow>
            shared w' v (ethStake (stakes w' v))) \<and>
         (musdtStake (stakes w' v) \<noteq> musdtStake (stakes w v) \<longrightarrow>
            shared w' v (musdtStake (stakes w' v))) \<and>
         (pendingRewards (stakes w' v) \<noteq> pendingRewards (stakes w v) \<longrightarrow>
            shared w' v (pendingRewards (stakes w' v)))"
proof (cases c)
  case (StakeEth msg_value)
  with assms have "stakeEth s msg_value w = Inr w'" by simp
  from stakeEth_effect [OF this] obtain w1 where acc: "accrue s w = Inr w1"
    and st: "stakes w' = (stakes w1)(s := (stakes w1 s)\<lparr>ethStake := handleCount w',
                 lastUpdated := blockTime w1\<rparr>)"
    and fr: "self w' = self w1" "acl w1 \<subseteq> acl w'" "publicHandles w1 \<subseteq> publicHandles w'"
    and new: "shared w' s (handleCount w')"
    by (auto simp add: shared_def)
  note a = accrue_shared [OF acc, of v]
  have "pendingRewards (stakes w' v) = pendingRewards (stakes w1 v)"
    "musdtStake (stakes w' v) = musdtStake (stakes w1 v)"
    "v \<noteq> s \<Longrightarrow> ethStake (stakes w' v) = ethStake (stakes w1 v)"
    "ethStake (stakes w' s) = handleCount w'"
    by (simp_all add: st)
  with a new fr show ?thesis
    by (cases "v = s") (auto intro: shared_mono)
next
  case (StakeMusdt enc pf)
  with assms have "stakeMusdt ev s enc pf w = Inr w'" by simp
  from stakeMusdt_effect [OF this] obtain w1 where acc: "accrue s w = Inr w1"
    and st: "stakes w' = (stakes w1)(s := (stakes w1 s)\<lparr>musdtStake := handleCount w',
                 lastUpdated := blockTime w1\<rparr>)"
    and fr: "self w' = self w1" "acl w1 \<subseteq> acl w'" "publicHandles w1 \<subseteq> publicHandles w'"
    and new: "shared w' s (handleCount w')"
    by (auto simp add: shared_def)
  note a = accrue_shared [OF acc, of v]
  have "pendingRewards (stakes w' v) = pendingRewards (stakes w1 v)"
    "ethStake (stakes w' v) = ethStake (stakes w1 v)"
    "v \<noteq> s \<Longrightarrow> musdtStake (stakes w' v) = musdtStake (stakes w1 v)"
    "musdtStake (stakes w' s) = handleCount w'"
    by (simp_all add: st)
  with a new fr show ?thesis
    by (cases "v = s") (auto intro: shared_mono)
next
  case (WithdrawEth amount clear pf)
  with assms have "withdrawEth ev s amount clear pf w = Inr w'" by simp
  from withdrawEth_effect [OF this] obtain w1 where acc: "accrue s w = Inr w1"
    and st: "stakes w' = (stakes w1)(s := (stakes w1 s)\<lparr>ethStake := handleCount w',
                 lastUpdated := blockTime w1\<rparr>)"
    and fr: "self w' = self w1" "acl w1 \<subseteq> acl w'" "publicHandles w1 \<subseteq> publicHandles w'"
    and new: "shared w' s (handleCount w')"
    by (auto simp add: shared_def)
  note a = accrue_shared [OF acc, of v]
  have "pendingRewards (stakes w' v) = pendingRewards (stakes w1 v)"
    "musdtStake (stakes w' v) = musdtStake (stakes w1 v)"
    "v \<noteq> s \<Longrightarrow> ethStake (stakes w' v) = ethStake (stakes w1 v)"
    "ethStake (stakes w' s) = handleCount w'"
    by (simp_all add: st)
  with a new fr show ?thesis
    by (cases "v = s") (auto intro: shared_mono)
next
  case ClaimRewards
  with assms have "claimRewards s w = Inr w'" by simp
  from claimRewards_effect [OF this] obtain w1 where acc: "accrue s w = Inr w1"
    and st: "stakes w' = (stakes w1)(s := (stakes w1 s)\<lparr>pendingRewards := handleCount w',
                 lastUpdated := blockTime w1\<rparr>)"
    and fr: "self w' = self w1" "acl w1 \<subseteq> acl w'" "publicHandles w1 \<subseteq> publicHandles w'"
    and new: "shared w' s (handleCount w')"
    by (auto simp add: shared_def)
  note a = accrue_shared [OF acc, of v]
  have "ethStake (stakes w' v) = ethStake (stakes w1 v)"
    "musdtStake (stakes w' v) = musdtStake (stakes w1 v)"
    "v \<noteq> s \<Longrightarrow> pendingRewards (stakes w' v) = pendingRewards (stakes w1 v)"
    "pendingRewards (stakes w' s) = handleCount w'"
    by (simp_all add: st)
  with a new fr show ?thesis
    by (cases "v = s") (auto intro: shared_mono)
next
  case SyncRewards
  with assms have "accrue s w = Inr w'"
    by (auto simp add: syncRewards_def split: sum.splits)
  from accrue_shared [OF this, of v] show ?thesis by auto
qed

theorem written_values_are_shared_witness:
  "\<exists>w'. exec testEnv 5 (StakeEth 1000000000000000000) testWorld = Inr w' \<and>
     ethStake (stakes w' 5) \<noteq> ethStake (stakes testWorld 5) \<and>
     shared w' 5 (ethStake (stakes w' 5))"
proof -
  have "accrue 5 testWorld = Inr (update_info testWorld 5 (\<lambda>i. i\<lparr>lastUpdated := 1000\<rparr>))"
    by (simp add: accrue_alt Let_def testWorld_simps emptyStake_def)
  then obtain w' where w': "stakeEth 5 1000000000000000000 testWorld = Inr w'"
    using stakeEth_succeeds [of 1000000000000000000 5 testWorld] by auto
  from stakeEth_effect [OF w']
  have ch: "ethStake (stakes w' 5) \<noteq> ethStake (stakes testWorld 5)"
    by (auto simp add: testWorld_simps emptyStake_def)
  from w' have e: "exec testEnv 5 (StakeEth 1000000000000000000) testWorld = Inr w'" by simp
  from written_values_are_shared [OF e, of 5] ch e show ?thesis by blast
qed

text \<open>
  C8. A deposit of asset-2 adds to the caller's \<open>musdtStake\<close> the amount that the
  token's \<open>confidentialTransferFrom\<close> returns as moved, whatever amount was requested:
  the new stake is initialized and holds the old stake (zero when it was uninitialized)
  plus the moved amount.
\<close>

theorem stakeMusdt_adds_transferred:
  assumes "lastUpdated (stakes w s) \<le> blockTime w" and "handles_ok w s"
    and "fromExternal ev enc pf = Some amount"
    and "confidentialTransferFrom ev (token w) (self w) s (self w) amount = Inr (tk, moved)"
  shows "\<exists>w'. stakeMusdt ev s enc pf w = Inr w' \<and>
     isInitialized (musdtStake (stakes w' s)) \<and>
     val w' (musdtStake (stakes w' s)) = val w (musdtStake (stakes w s)) + ucast moved"
proof -
  from assms(1) obtain w1 where acc: "accrue s w = Inr w1" using accrue_succeeds by blast
  have fr: "token w1 = token w" "self w1 = self w" using acc by (rule accrue_frame)+
  have st: "musdtStake (stakes w1 s) = musdtStake (stakes w s)"
    using acc by (rule accrue_stakes_kept)
  have h: "musdtStake (stakes w s) \<le> handleCount w" using assms(2) by (simp add: handles_ok_def)
  have h1: "musdtStake (stakes w1 s) \<le> handleCount w1"
    using h accrue_count_mono [OF acc] unfolding st by simp
  have old: "val w1 (musdtStake (stakes w1 s)) = val w (musdtStake (stakes w s))"
    unfolding st using acc h by (rule accrue_val_old)
  from acc assms(3) assms(4) obtain w' where w': "stakeMusdt ev s enc pf w = Inr w'"
    using stakeMusdt_succeeds [of s w w1 ev enc pf amount tk moved] unfolding fr by blast
  from stakeMusdt_effect [OF w'] acc assms(3) assms(4) fr h1 old
  have "musdtStake (stakes w' s) = handleCount w'" "0 < handleCount w'"
    "val w' (handleCount w') = val w (musdtStake (stakes w s)) + ucast moved"
    by auto
  with w' show ?thesis by (auto simp add: isInitialized_def)
qed

theorem stakeMusdt_adds_transferred_witness:
  "lastUpdated (stakes fundedWorld 5) \<le> blockTime fundedWorld \<and> handles_ok fundedWorld 5 \<and>
   fromExternal testEnv 250 [1] = Some 250 \<and>
   confidentialTransferFrom testEnv (token fundedWorld) (self fundedWorld) 5 (self fundedWorld) 250
     = Inr (testToken 100 ((\<lambda>_. None)(5 := Some 100, 1 := Some 0)) {(5, 1)}, 0) \<and>
   (\<exists>w'. stakeMusdt testEnv 5 250 [1] fundedWorld = Inr w' \<and>
      isInitialized (musdtStake (stakes w' 5)) \<and> val w' (musdtStake (stakes w' 5)) = 0)"
proof -
  have h: "lastUpdated (stakes fundedWorld 5) \<le> blockTime fundedWorld" "handles_ok fundedWorld 5"
    "fromExternal testEnv 250 [1] = Some 250"
    "confidentialTransferFrom testEnv (token fundedWorld) (self fundedWorld) 5 (self fundedWorld) 250
       = Inr (testToken 100 ((\<lambda>_. None)(5 := Some 100, 1 := Some 0)) {(5, 1)}, 0)"
    by (simp_all add: fundedWorld_simps emptyStake_def handles_ok_def testEnv_def
        erc7984_transferFrom_def testToken_def balance_of_def Let_def)
  show ?thesis
    using stakeMusdt_adds_transferred [OF h] h
    by (simp add: fundedWorld_simps emptyStake_def)
qed

text \<open>
  C9. For every user and every state, \<open>getPosition\<close> returns the four stored fields of
  the user's position verbatim and leaves the whole state as it was: no accrual runs and
  \<open>lastUpdated\<close> does not advance.
\<close>

theorem getPosition_verbatim:
  "call_getPosition user w =
     (w, ethStake (stakes w user), musdtStake (stakes w user),
         pendingRewards (stakes w user), lastUpdated (stakes w user))"
  by (simp add: call_getPosition_def getPosition_def Let_def)

text \<open>
  C10. In every reachable state and for every caller \<open>syncRewards\<close> succeeds. On a
  position that was never touched it sets \<open>lastUpdated\<close> to the block time, changes
  nothing else and returns the stored \<open>pendingRewards\<close> handle, which is still
  uninitialized.
\<close>

theorem syncRewards_never_fails:
  assumes "reachable w"
  shows "(\<exists>w1 p. syncRewards u w = Inr (w1, p)) \<and>
     (lastUpdated (stakes w u) = 0 \<longrightarrow>
        syncRewards u w =
          Inr (update_info w u (\<lambda>i. i\<lparr>lastUpdated := blockTime w\<rparr>), pendingRewards (stakes w u))) \<and>
     (stakes w u = emptyStake \<longrightarrow> \<not> isInitialized (pendingRewards (stakes w u)))"
proof -
  from reachable_position_ok [OF assms, of u] have "lastUpdated (stakes w u) \<le> blockTime w"
    by (simp add: position_ok_def)
  then obtain w1 where acc: "accrue u w = Inr w1" using accrue_succeeds by blast
  then have a: "\<exists>w1 p. syncRewards u w = Inr (w1, p)" by (simp add: syncRewards_def)
  have b: "syncRewards u w =
      Inr (update_info w u (\<lambda>i. i\<lparr>lastUpdated := blockTime w\<rparr>), pendingRewards (stakes w u))"
    if "lastUpdated (stakes w u) = 0"
    using that by (simp add: syncRewards_def accrue_alt Let_def fhe_simps)
  have c: "\<not> isInitialized (pendingRewards (stakes w u))" if "stakes w u = emptyStake"
    using that by (simp add: emptyStake_def isInitialized_def)
  from a b c show ?thesis by blast
qed

theorem syncRewards_never_fails_witness:
  "reachable (deployed 1 2 3 1000) \<and> stakes (deployed 1 2 3 1000) 5 = emptyStake \<and>
   syncRewards 5 (deployed 1 2 3 1000) =
     Inr (update_info (deployed 1 2 3 1000) 5 (\<lambda>i. i\<lparr>lastUpdated := 1000\<rparr>), 0) \<and>
   reachable (fst (transact (exec testEnv 5 (StakeEth 1000000000000000000)) (deployed 1 2 3 1000))) \<and>
   (\<exists>w1 p. syncRewards 5
      (fst (transact (exec testEnv 5 (StakeEth 1000000000000000000)) (deployed 1 2 3 1000)))
        = Inr (w1, p))"
proof -
  have r: "reachable (deployed 1 2 3 1000)" by (rule reachable.deploy) simp
  then have r2: "reachable (fst (transact (exec testEnv 5 (StakeEth 1000000000000000000))
      (deployed 1 2 3 1000)))"
    by (rule reachable.ledger_call)
  have s: "stakes (deployed 1 2 3 1000) 5 = emptyStake" "blockTime (deployed 1 2 3 1000) = 1000"
    by (simp_all add: deployed_def)
  from syncRewards_never_fails [OF r, of 5] syncRewards_never_fails [OF r2, of 5] r r2 s
  show ?thesis by (simp add: emptyStake_def)
qed

end
